theory Spec2Isabelle
  imports
    Main
    "HOL-Library.Word"
    "HOL-Library.Char_ord"
    "HOL-Library.List_Lexorder"
    "HOL-Library.Multiset"
    "HOL-Library.Signed_Division"
begin

unbundle bit_operations_syntax

section \<open>The InfluxDB client of the firehose nozzle\<close>

text \<open>
  A shallow embedding of package \<open>influxdbclient\<close>: the client record, \<open>AddMetric\<close>,
  \<open>AlertSlowConsumerError\<close>, \<open>PostMetrics\<close> and their helpers. Go strings are byte
  sequences, here \<open>string\<close>; \<open>uint64\<close> and \<open>int64\<close> are 64-bit words (\<open>sint\<close> reads
  the signed value); the map \<open>metricPoints\<close> is a partial function, and \<open>len\<close> of it is
  the number of its keys (a Go map is finite). What the code takes from its environment
  is an argument of the model: the readings of \<open>time.Now()\<close>, the order in which
  \<open>range\<close> visits a map, the outcome of the HTTP exchange, and the library function
  \<open>strconv.FormatFloat\<close>. Logging is left out.
\<close>

subsection \<open>Machine types\<close>

type_synonym uint32 = "32 word"
type_synonym int32 = "32 word"
type_synonym uint64 = "64 word"
type_synonym int64 = "64 word"

text \<open>A \<open>float64\<close> is its IEEE 754 binary64 bit pattern.\<close>

datatype float64 = Float64 (float64bits: "64 word")

fun bit_len :: "nat \<Rightarrow> nat" where
  "bit_len n = (if n = 0 then 0 else Suc (bit_len (n div 2)))"

declare bit_len.simps [simp del]

text \<open>
  Go's conversion \<open>float64(x)\<close> of a \<open>uint64\<close>: exact up to 53 significant bits,
  rounded to nearest, ties to even, beyond.
\<close>

definition float64_of_uint64 :: "uint64 \<Rightarrow> float64" where
  "float64_of_uint64 x =
     (let n = unat x; l = bit_len n
      in if n = 0 then Float64 0
         else if l \<le> 53 then Float64 (of_nat ((l - 1 + 1023) * 2 ^ 52 + (n * 2 ^ (53 - l) - 2 ^ 52)))
         else
           let sh = l - 53; q = n div 2 ^ sh; r = n mod 2 ^ sh; half = 2 ^ (sh - 1);
               q' = (if half < r \<or> (r = half \<and> odd q) then q + 1 else q)
           in if q' = 2 ^ 53 then Float64 (of_nat ((l + 1023) * 2 ^ 52))
              else Float64 (of_nat ((l - 1 + 1023) * 2 ^ 52 + (q' - 2 ^ 52))))"

subsection \<open>SHA-1 (\<open>crypto/sha1\<close>, FIPS 180-4)\<close>

definition be_bytes :: "nat \<Rightarrow> 'a::len word \<Rightarrow> string" where
  "be_bytes n w = map (\<lambda>i. char_of (unat (drop_bit (8 * (n - 1 - i)) w))) [0..<n]"

definition be_uint32 :: "string \<Rightarrow> uint32" where
  "be_uint32 bs = fold (\<lambda>b acc. push_bit 8 acc OR of_char b) bs 0"

definition sha1_pad :: "string \<Rightarrow> string" where
  "sha1_pad msg =
     msg @ [char_of (0x80 :: nat)]
       @ replicate ((119 - length msg mod 64) mod 64) (char_of (0 :: nat))
       @ be_bytes 8 (of_nat (8 * length msg) :: 64 word)"

fun sha1_schedule :: "nat \<Rightarrow> uint32 list \<Rightarrow> uint32 list" where
  "sha1_schedule 0 w = w"
| "sha1_schedule (Suc n) w =
     sha1_schedule n
       (w @ [word_rotl 1 (w ! (length w - 3) XOR w ! (length w - 8)
                            XOR w ! (length w - 14) XOR w ! (length w - 16))])"

definition sha1_f :: "nat \<Rightarrow> uint32 \<Rightarrow> uint32 \<Rightarrow> uint32 \<Rightarrow> uint32" where
  "sha1_f t b c d =
     (if t < 20 then (b AND c) OR (NOT b AND d)
      else if t < 40 then b XOR c XOR d
      else if t < 60 then (b AND c) OR (b AND d) OR (c AND d)
      else b XOR c XOR d)"

definition sha1_k :: "nat \<Rightarrow> uint32" where
  "sha1_k t =
     (if t < 20 then 0x5A827999 else if t < 40 then 0x6ED9EBA1
      else if t < 60 then 0x8F1BBCDC else 0xCA62C1D6)"

type_synonym sha1_state = "uint32 \<times> uint32 \<times> uint32 \<times> uint32 \<times> uint32"

fun sha1_round :: "uint32 list \<Rightarrow> nat \<Rightarrow> sha1_state \<Rightarrow> sha1_state" where
  "sha1_round w t (a, b, c, d, e) =
     (word_rotl 5 a + sha1_f t b c d + e + sha1_k t + w ! t, a, word_rotl 30 b, c, d)"

fun sha1_add :: "sha1_state \<Rightarrow> sha1_state \<Rightarrow> sha1_state" where
  "sha1_add (h0, h1, h2, h3, h4) (a, b, c, d, e) = (h0 + a, h1 + b, h2 + c, h3 + d, h4 + e)"

definition sha1_words :: "string \<Rightarrow> uint32 list" where
  "sha1_words blk = map (\<lambda>i. be_uint32 (take 4 (drop (4 * i) blk))) [0..<16]"

definition sha1_block :: "sha1_state \<Rightarrow> string \<Rightarrow> sha1_state" where
  "sha1_block h blk =
     sha1_add h (fold (sha1_round (sha1_schedule 64 (sha1_words blk))) [0..<80] h)"

fun sha1_blocks :: "nat \<Rightarrow> sha1_state \<Rightarrow> string \<Rightarrow> sha1_state" where
  "sha1_blocks 0 h bs = h"
| "sha1_blocks (Suc n) h bs = sha1_blocks n (sha1_block h (take 64 bs)) (drop 64 bs)"

fun sha1_digest :: "sha1_state \<Rightarrow> string" where
  "sha1_digest (h0, h1, h2, h3, h4) = concat (map (be_bytes 4) [h0, h1, h2, h3, h4])"

text \<open>\<open>sha1.Sum\<close>: the 20-byte digest of a byte sequence.\<close>

definition sha1_Sum :: "string \<Rightarrow> string" where
  "sha1_Sum msg =
     sha1_digest
       (sha1_blocks (length (sha1_pad msg) div 64)
          (0x67452301, 0xEFCDAB89, 0x98BADCFE, 0x10325476, 0xC3D2E1F0) (sha1_pad msg))"

subsection \<open>Envelopes (\<open>sonde-go/events\<close>)\<close>

text \<open>
  An envelope is modelled by what its getters return; a getter of a missing optional
  field returns the zero value, also through a nil payload
  (\<open>envelope.GetValueMetric().GetName()\<close>). The event type is an \<open>int32\<close>; the
  generated constants are \<open>Envelope_ValueMetric = 6\<close> and \<open>Envelope_CounterEvent = 7\<close>.
  \<open>GetTags\<close> lists the entries of the free-form tags map in the order in which
  \<open>range\<close> visits them.
\<close>

record ValueMetric =
  vmName :: string
  vmValue :: float64

record CounterEvent =
  ceName :: string
  ceDelta :: uint64
  ceTotal :: uint64

record Envelope =
  GetOrigin :: string
  GetEventType :: int32
  GetTimestamp :: int64
  GetDeployment :: string
  GetJob :: string
  GetIndex :: string
  GetIp :: string
  GetTags :: "(string \<times> string) list"
  GetValueMetric :: "ValueMetric option"
  GetCounterEvent :: "CounterEvent option"

definition Envelope_ValueMetric :: int32 where
  "Envelope_ValueMetric = 6"

definition Envelope_CounterEvent :: int32 where
  "Envelope_CounterEvent = 7"

definition ValueMetric_GetName :: "ValueMetric option \<Rightarrow> string" where
  "ValueMetric_GetName m = (case m of None \<Rightarrow> [] | Some v \<Rightarrow> vmName v)"

definition ValueMetric_GetValue :: "ValueMetric option \<Rightarrow> float64" where
  "ValueMetric_GetValue m = (case m of None \<Rightarrow> Float64 0 | Some v \<Rightarrow> vmValue v)"

definition CounterEvent_GetName :: "CounterEvent option \<Rightarrow> string" where
  "CounterEvent_GetName m = (case m of None \<Rightarrow> [] | Some v \<Rightarrow> ceName v)"

definition CounterEvent_GetTotal :: "CounterEvent option \<Rightarrow> uint64" where
  "CounterEvent_GetTotal m = (case m of None \<Rightarrow> 0 | Some v \<Rightarrow> ceTotal v)"

subsection \<open>The client's data\<close>

record metricKey =
  eventType :: int32
  name :: string
  tagsHash :: string

record Point =
  Timestamp :: int64
  Value :: float64

record metricValue =
  tags :: "string list"
  points :: "Point list"

record Client =
  url :: string
  database :: string
  user :: string
  password :: string
  allowSelfSigned :: bool
  metricPoints :: "metricKey \<rightharpoonup> metricValue"
  prefix :: string
  deployment :: string
  ip :: string
  client_tagsHash :: string
  totalMessagesReceived :: uint64
  totalMetricsSent :: uint64

definition New ::
  "string \<Rightarrow> string \<Rightarrow> string \<Rightarrow> string \<Rightarrow> bool \<Rightarrow> string \<Rightarrow> string \<Rightarrow> string \<Rightarrow> Client" where
  "New url' database' user' password' allowSelfSigned' prefix' deployment' ip' =
     \<lparr>url = url', database = database', user = user', password = password',
      allowSelfSigned = allowSelfSigned', metricPoints = Map.empty, prefix = prefix',
      deployment = deployment', ip = ip', client_tagsHash = [], totalMessagesReceived = 0,
      totalMetricsSent = 0\<rparr>"

subsection \<open>Tags and the grouping hash\<close>

definition appendTagIfNotEmpty :: "string list \<Rightarrow> string \<Rightarrow> string \<Rightarrow> string list" where
  "appendTagIfNotEmpty tags' key value =
     (if value \<noteq> [] then tags' @ [key @ ''='' @ value] else tags')"

definition parseTags :: "Envelope \<Rightarrow> string list" where
  "parseTags envelope =
     (let tags0 = appendTagIfNotEmpty [] ''deployment'' (GetDeployment envelope);
          tags1 = appendTagIfNotEmpty tags0 ''job'' (GetJob envelope);
          tags2 = appendTagIfNotEmpty tags1 ''index'' (GetIndex envelope);
          tags3 = appendTagIfNotEmpty tags2 ''ip'' (GetIp envelope)
      in fold (\<lambda>(tname, tvalue) tags'. appendTagIfNotEmpty tags' tname tvalue)
           (GetTags envelope) tags3)"

text \<open>
  \<open>hashTags\<close> calls \<open>sort.Strings\<close> on the slice it is given, which sorts the caller's
  backing array in place (Go compares strings bytewise). The model returns the
  contents of the caller's slice after the call together with the hash.
\<close>

definition hashTags :: "string list \<Rightarrow> string list \<times> string" where
  "hashTags tags' =
     (let sorted_tags = sort tags'
      in (sorted_tags, fold (\<lambda>tag hash. hash @ sha1_Sum tag) sorted_tags []))"

text \<open>The \<open>default\<close> branches of \<open>getName\<close> and \<open>getValue\<close> panic: \<open>None\<close>.\<close>

definition getName :: "Envelope \<Rightarrow> string option" where
  "getName envelope =
     (if GetEventType envelope = Envelope_ValueMetric
      then Some (GetOrigin envelope @ ''.'' @ ValueMetric_GetName (GetValueMetric envelope))
      else if GetEventType envelope = Envelope_CounterEvent
      then Some (GetOrigin envelope @ ''.'' @ CounterEvent_GetName (GetCounterEvent envelope))
      else None)"

definition getValue :: "Envelope \<Rightarrow> float64 option" where
  "getValue envelope =
     (if GetEventType envelope = Envelope_ValueMetric
      then Some (ValueMetric_GetValue (GetValueMetric envelope))
      else if GetEventType envelope = Envelope_CounterEvent
      then Some (float64_of_uint64 (CounterEvent_GetTotal (GetCounterEvent envelope)))
      else None)"

subsection \<open>Accumulating\<close>

text \<open>
  \<open>time.Second\<close> is \<open>1000000000\<close>; Go's \<open>/\<close> on \<open>int64\<close> truncates towards zero.
  \<open>AddMetric\<close> returns \<open>None\<close> where the code panics.
\<close>

definition AddMetric :: "Client \<Rightarrow> Envelope \<Rightarrow> Client option" where
  "AddMetric c envelope =
     (let c1 = c\<lparr>totalMessagesReceived := totalMessagesReceived c + 1\<rparr>
      in if GetEventType envelope \<noteq> Envelope_ValueMetric
            \<and> GetEventType envelope \<noteq> Envelope_CounterEvent
         then Some c1
         else
           case getName envelope of
             None \<Rightarrow> None
           | Some name' \<Rightarrow>
               (case hashTags (parseTags envelope) of
                  (tags', hash) \<Rightarrow>
                    let key = \<lparr>eventType = GetEventType envelope, name = name', tagsHash = hash\<rparr>;
                        mVal = (case metricPoints c1 key of
                                  None \<Rightarrow> \<lparr>tags = [], points = []\<rparr>
                                | Some v \<Rightarrow> v)
                    in (case getValue envelope of
                          None \<Rightarrow> None
                        | Some value \<Rightarrow>
                            Some (c1\<lparr>metricPoints := (metricPoints c1)(key \<mapsto>
                               \<lparr>tags = tags',
                                points = points mVal @
                                  [\<lparr>Timestamp =
                                      word_of_int (sint (GetTimestamp envelope) sdiv 1000000000),
                                    Value = value\<rparr>]\<rparr>)\<rparr>))))"

text \<open>
  \<open>addInternalMetric\<close> takes the reading of \<open>time.Now().Unix()\<close> as \<open>now\<close>. The key's
  event type is the zero value of the struct literal.
\<close>

definition addInternalMetric :: "int64 \<Rightarrow> Client \<Rightarrow> string \<Rightarrow> uint64 \<Rightarrow> Client" where
  "addInternalMetric now c name' value =
     (let key = \<lparr>eventType = 0, name = name', tagsHash = client_tagsHash c\<rparr>;
          point = \<lparr>Timestamp = now, Value = float64_of_uint64 value\<rparr>;
          mValue = \<lparr>tags = [''ip='' @ ip c, ''deployment='' @ deployment c], points = [point]\<rparr>
      in c\<lparr>metricPoints := (metricPoints c)(key \<mapsto> mValue)\<rparr>)"

definition AlertSlowConsumerError :: "int64 \<Rightarrow> Client \<Rightarrow> Client" where
  "AlertSlowConsumerError now c = addInternalMetric now c ''slowConsumerAlert'' 1"

definition containsSlowConsumerAlert :: "Client \<Rightarrow> bool" where
  "containsSlowConsumerAlert c =
     (let key = \<lparr>eventType = 0, name = ''slowConsumerAlert'', tagsHash = client_tagsHash c\<rparr>
      in metricPoints c key \<noteq> None)"

text \<open>
  \<open>clock i\<close> is the reading that the \<open>i\<close>-th place calling \<open>time.Now()\<close> during one
  \<open>PostMetrics\<close> gets: places 0, 1 and 2 are in \<open>populateInternalMetrics\<close>, place
  \<open>3 + i\<close> is \<open>formatTimestamp\<close> for the \<open>i\<close>-th series rendered.
\<close>

definition populateInternalMetrics :: "(nat \<Rightarrow> int64) \<Rightarrow> Client \<Rightarrow> Client" where
  "populateInternalMetrics clock c =
     (let c1 = addInternalMetric (clock 0) c ''totalMessagesReceived'' (totalMessagesReceived c);
          c2 = addInternalMetric (clock 1) c1 ''totalMetricsSent'' (totalMetricsSent c1)
      in if \<not> containsSlowConsumerAlert c2
         then addInternalMetric (clock 2) c2 ''slowConsumerAlert'' 0
         else c2)"

subsection \<open>Rendering\<close>

definition formatTags :: "string list \<Rightarrow> string" where
  "formatTags tags' =
     fold (\<lambda>(index, tag) newTags. (if 0 < index then newTags @ '','' else newTags) @ tag)
       (enumerate 0 tags') []"

definition formatValues :: "(float64 \<Rightarrow> string) \<Rightarrow> Point list \<Rightarrow> string" where
  "formatValues FormatFloat points' =
     fold (\<lambda>(index, point) newPoints.
             (if 0 < index then newPoints @ '','' else newPoints)
               @ ''value='' @ FormatFloat (Value point))
       (enumerate 0 points') []"

fun nat_digits :: "nat \<Rightarrow> string" where
  "nat_digits n =
     (if n < 10 then [''0123456789'' ! n]
      else nat_digits (n div 10) @ [''0123456789'' ! (n mod 10)])"

declare nat_digits.simps [simp del]

text \<open>\<open>strconv.FormatInt(i, 10)\<close>.\<close>

definition FormatInt :: "int64 \<Rightarrow> string" where
  "FormatInt i =
     (if sint i < 0 then ''-'' @ nat_digits (nat (- sint i)) else nat_digits (nat (sint i)))"

definition formatTimestamp :: "int64 \<Rightarrow> Point list \<Rightarrow> string" where
  "formatTimestamp now points' =
     (case points' of
        point # _ \<Rightarrow> FormatInt (Timestamp point * 1000 * 1000 * 1000)
      | [] \<Rightarrow> FormatInt (now * 1000 * 1000 * 1000))"

text \<open>
  The body of the loop of \<open>formatMetrics\<close>, for one key and its value: what it writes
  to the buffer.
\<close>

definition formatSeries ::
  "(float64 \<Rightarrow> string) \<Rightarrow> int64 \<Rightarrow> Client \<Rightarrow> metricKey \<Rightarrow> metricValue \<Rightarrow> string" where
  "formatSeries FormatFloat now c key mVal =
     (let tags' = tags mVal @ [''potato=face'']
      in prefix c @ name key
           @ (if 0 < length tags' then '','' @ formatTags tags' else [])
           @ '' '' @ formatValues FormatFloat (points mVal)
           @ '' '' @ formatTimestamp now (points mVal)
           @ [CHR 0x0A])"

text \<open>
  \<open>ks\<close> is the order in which \<open>range c.metricPoints\<close> visits the keys of the map.
\<close>

definition formatMetrics ::
  "(float64 \<Rightarrow> string) \<Rightarrow> (nat \<Rightarrow> int64) \<Rightarrow> metricKey list \<Rightarrow> Client \<Rightarrow> string \<times> uint64" where
  "formatMetrics FormatFloat clock ks c =
     (fold (\<lambda>(i, key) buffer.
              case metricPoints c key of
                None \<Rightarrow> buffer
              | Some mVal \<Rightarrow> buffer @ formatSeries FormatFloat (clock (3 + i)) c key mVal)
        (enumerate 0 ks) [],
      of_nat (card (dom (metricPoints c))))"

subsection \<open>Posting\<close>

type_synonym error = string

text \<open>
  What \<open>ioutil.ReadAll(resp.Body)\<close> returns: the whole body, or the bytes read before
  an error together with that error.
\<close>

datatype body_read = ReadAll_ok string | ReadAll_error string error

datatype http_result =
    Post_error error
  | Post_response (StatusCode: int) (Status: string) (Body: body_read)

record http_request =
  reqURL :: string
  reqContentType :: string
  reqBody :: string
  reqInsecureSkipVerify :: bool

definition seriesURL :: "Client \<Rightarrow> string" where
  "seriesURL c = url c @ ''/write?db='' @ database c"

text \<open>
  \<open>PostMetrics\<close> returns the request it sends, the error it returns (\<open>None\<close> is
  \<open>nil\<close>) and the client afterwards. \<open>result\<close> is what \<open>httpClient.Post\<close> returns.
\<close>

definition PostMetrics ::
  "(float64 \<Rightarrow> string) \<Rightarrow> (nat \<Rightarrow> int64) \<Rightarrow> metricKey list \<Rightarrow> http_result \<Rightarrow> Client
     \<Rightarrow> http_request \<times> error option \<times> Client" where
  "PostMetrics FormatFloat clock ks result c =
     (let url' = seriesURL c;
          c1 = populateInternalMetrics clock c
      in case formatMetrics FormatFloat clock ks c1 of
           (seriesBytes, metricsCount) \<Rightarrow>
             let req = \<lparr>reqURL = url', reqContentType = ''application/binary'',
                        reqBody = seriesBytes, reqInsecureSkipVerify = True\<rparr>
             in (case result of
                   Post_error err \<Rightarrow> (req, Some err, c1)
                 | Post_response code status body \<Rightarrow>
                     if 300 \<le> code \<or> code < 200 then
                       (case body of
                          ReadAll_error partial err \<Rightarrow>
                            (req, Some (''Can't read response body: '' @ status), c1)
                        | ReadAll_ok errBody \<Rightarrow>
                            (req,
                             Some (''InfluxDB request returned HTTP response: '' @ status
                                     @ [CHR '';'', CHR 0x0A] @ errBody),
                             c1))
                     else
                       (req, None,
                        c1\<lparr>totalMetricsSent := totalMetricsSent c1 + metricsCount,
                           metricPoints := Map.empty\<rparr>)))"

section \<open>Vocabulary of the properties\<close>

text \<open>The HTTP write succeeds: a response arrived and its status code is in [200, 300).\<close>

definition writeSucceeds :: "http_result \<Rightarrow> bool" where
  "writeSucceeds result =
     (case result of
        Post_error _ \<Rightarrow> False
      | Post_response code _ _ \<Rightarrow> 200 \<le> code \<and> code < 300)"

text \<open>\<open>carries msg s\<close>: the byte sequence \<open>s\<close> occurs in \<open>msg\<close>.\<close>

fun carries :: "string \<Rightarrow> string \<Rightarrow> bool" where
  "carries [] s = (s = [])"
| "carries (x # xs) s = (take (length s) (x # xs) = s \<or> carries xs s)"

text \<open>The key and the value that \<open>addInternalMetric\<close> builds.\<close>

definition internalKey :: "Client \<Rightarrow> string \<Rightarrow> metricKey" where
  "internalKey c name' = \<lparr>eventType = 0, name = name', tagsHash = client_tagsHash c\<rparr>"

definition internalValue :: "Client \<Rightarrow> int64 \<Rightarrow> uint64 \<Rightarrow> metricValue" where
  "internalValue c now value =
     \<lparr>tags = [''ip='' @ ip c, ''deployment='' @ deployment c],
      points = [\<lparr>Timestamp = now, Value = float64_of_uint64 value\<rparr>]\<rparr>"

text \<open>The names of the three internal series.\<close>

definition internalNames :: "string list" where
  "internalNames = [''totalMessagesReceived'', ''totalMetricsSent'', ''slowConsumerAlert'']"

text \<open>Every series of the batch is one that \<open>addInternalMetric\<close> wrote.\<close>

definition onlyInternal :: "Client \<Rightarrow> bool" where
  "onlyInternal c =
     (\<forall>k v. metricPoints c k = Some v \<longrightarrow>
        (\<exists>n \<in> set internalNames. \<exists>t x. k = internalKey c n \<and> v = internalValue c t x))"

text \<open>The line of the payload for an internal series with one point.\<close>

definition internalLine ::
  "(float64 \<Rightarrow> string) \<Rightarrow> Client \<Rightarrow> string \<Rightarrow> int64 \<Rightarrow> uint64 \<Rightarrow> string" where
  "internalLine FormatFloat c name' now value =
     prefix c @ name' @ '',ip='' @ ip c @ '',deployment='' @ deployment c
       @ '',potato=face value='' @ FormatFloat (float64_of_uint64 value)
       @ '' '' @ FormatInt (now * 1000 * 1000 * 1000) @ [CHR 0x0A]"

text \<open>The points a key holds; none when the key is absent.\<close>

definition pointsAt :: "Client \<Rightarrow> metricKey \<Rightarrow> Point list" where
  "pointsAt c key = (case metricPoints c key of None \<Rightarrow> [] | Some v \<Rightarrow> points v)"

text \<open>An envelope that \<open>AddMetric\<close> does not ignore, its key and its point.\<close>

definition isMetric :: "Envelope \<Rightarrow> bool" where
  "isMetric envelope =
     (GetEventType envelope = Envelope_ValueMetric
      \<or> GetEventType envelope = Envelope_CounterEvent)"

definition seriesKey :: "Envelope \<Rightarrow> metricKey" where
  "seriesKey envelope =
     \<lparr>eventType = GetEventType envelope,
      name = (case getName envelope of None \<Rightarrow> [] | Some name' \<Rightarrow> name'),
      tagsHash = snd (hashTags (parseTags envelope))\<rparr>"

definition seriesPoint :: "Envelope \<Rightarrow> Point" where
  "seriesPoint envelope =
     \<lparr>Timestamp = word_of_int (sint (GetTimestamp envelope) sdiv 1000000000),
      Value = (if GetEventType envelope = Envelope_ValueMetric
               then ValueMetric_GetValue (GetValueMetric envelope)
               else float64_of_uint64 (CounterEvent_GetTotal (GetCounterEvent envelope)))\<rparr>"

text \<open>
  Histories of calls on one client. A \<open>Flush\<close> carries what \<open>PostMetrics\<close> takes from
  its environment. \<open>run\<close> is \<open>None\<close> when a call panics.
\<close>

datatype call =
    Consume Envelope
  | Alert int64
  | Flush "nat \<Rightarrow> int64" "metricKey list" http_result

fun step :: "(float64 \<Rightarrow> string) \<Rightarrow> Client \<Rightarrow> call \<Rightarrow> Client option" where
  "step FormatFloat c (Consume envelope) = AddMetric c envelope"
| "step FormatFloat c (Alert now) = Some (AlertSlowConsumerError now c)"
| "step FormatFloat c (Flush clock ks result) =
     Some (snd (snd (PostMetrics FormatFloat clock ks result c)))"

fun run :: "(float64 \<Rightarrow> string) \<Rightarrow> Client \<Rightarrow> call list \<Rightarrow> Client option" where
  "run FormatFloat c [] = Some c"
| "run FormatFloat c (x # xs) =
     (case step FormatFloat c x of None \<Rightarrow> None | Some c' \<Rightarrow> run FormatFloat c' xs)"

fun isConsume :: "call \<Rightarrow> bool" where
  "isConsume (Consume _) = True"
| "isConsume _ = False"

fun isAlert :: "call \<Rightarrow> bool" where
  "isAlert (Alert _) = True"
| "isAlert _ = False"

text \<open>Inputs for the examples.\<close>

definition exampleClient :: Client where
  "exampleClient =
     New ''http://influx:8086'' ''metrics'' ''admin'' ''secret'' False ''nozzle.'' ''cf''
       ''10.0.0.1''"

definition exampleValueMetric :: Envelope where
  "exampleValueMetric =
     \<lparr>GetOrigin = ''origin'', GetEventType = Envelope_ValueMetric,
      GetTimestamp = 1000000000, GetDeployment = ''cf'', GetJob = ''doppler'',
      GetIndex = ''1'', GetIp = [],
      GetTags = [(''protocol'', ''http''), (''request_id'', ''a1f5'')],
      GetValueMetric = Some \<lparr>vmName = ''metricName'', vmValue = Float64 0x4014000000000000\<rparr>,
      GetCounterEvent = None\<rparr>"

definition exampleCounterEvent :: Envelope where
  "exampleCounterEvent =
     \<lparr>GetOrigin = ''origin'', GetEventType = Envelope_CounterEvent,
      GetTimestamp = 2000000000, GetDeployment = ''cf'', GetJob = [],
      GetIndex = [], GetIp = [], GetTags = [],
      GetValueMetric = None,
      GetCounterEvent = Some \<lparr>ceName = ''counterName'', ceDelta = 1, ceTotal = 5\<rparr>\<rparr>"

text \<open>
  \<open>strconv.FormatFloat(v, 'f', -1, 64)\<close> on the values 0, 1 and 5, the only ones the
  examples render.
\<close>

definition exampleFormatFloat :: "float64 \<Rightarrow> string" where
  "exampleFormatFloat v =
     (if v = Float64 0 then ''0''
      else if v = Float64 0x3FF0000000000000 then ''1''
      else if v = Float64 0x4014000000000000 then ''5''
      else ''?'')"

definition exampleKeys :: "metricKey list" where
  "exampleKeys =
     [internalKey exampleClient ''slowConsumerAlert'',
      internalKey exampleClient ''totalMessagesReceived'',
      internalKey exampleClient ''totalMetricsSent'']"

definition exampleLogMessage :: Envelope where
  "exampleLogMessage =
     \<lparr>GetOrigin = ''origin'', GetEventType = 5,
      GetTimestamp = 3000000000, GetDeployment = ''cf'', GetJob = ''doppler'',
      GetIndex = [], GetIp = [], GetTags = [],
      GetValueMetric = None, GetCounterEvent = None\<rparr>"

text \<open>
  The example client after a flush that failed at time 8 and one \<open>AddMetric\<close> of the
  example ValueMetric.
\<close>

definition exampleRetained :: Client where
  "exampleRetained =
     (populateInternalMetrics (\<lambda>_. 8) exampleClient)
       \<lparr>totalMessagesReceived := 1,
        metricPoints := (metricPoints (populateInternalMetrics (\<lambda>_. 8) exampleClient))
          (seriesKey exampleValueMetric \<mapsto>
             \<lparr>tags = [''deployment=cf'', ''index=1'', ''job=doppler'', ''protocol=http'',
                       ''request_id=a1f5''],
              points = [\<lparr>Timestamp = 1, Value = Float64 0x4014000000000000\<rparr>]\<rparr>)\<rparr>"

section \<open>Properties\<close>

subsection \<open>Auxiliary facts\<close>

lemma addInternalMetric_other_fields:
  "addInternalMetric now c n v = c\<lparr>metricPoints := metricPoints (addInternalMetric now c n v)\<rparr>"
  by (simp add: addInternalMetric_def)

lemma populateInternalMetrics_other_fields:
  "populateInternalMetrics clock c =
     c\<lparr>metricPoints := metricPoints (populateInternalMetrics clock c)\<rparr>"
  by (simp add: populateInternalMetrics_def addInternalMetric_def Let_def)

lemma populate_totalMetricsSent:
  "totalMetricsSent (populateInternalMetrics clock c) = totalMetricsSent c"
  by (subst populateInternalMetrics_other_fields) simp




lemma fold_append: "fold (\<lambda>x acc. acc @ f x) xs a = a @ concat (map f xs)"
  by (induction xs arbitrary: a) simp_all

lemma hashTags_fst: "fst (hashTags ts) = sort ts"
  by (simp add: hashTags_def Let_def)


lemma sort_mset_eq: "mset xs = mset ys \<Longrightarrow> sort xs = sort (ys :: string list)"
  by (rule properties_for_sort) simp_all

lemma hashTags_mset: "mset xs = mset ys \<Longrightarrow> hashTags xs = hashTags ys"
  using sort_mset_eq [of xs ys] by (simp add: hashTags_def)



lemma AddMetric_ignored:
  "\<not> isMetric e \<Longrightarrow> AddMetric c e = Some (c\<lparr>totalMessagesReceived := totalMessagesReceived c + 1\<rparr>)"
  by (simp add: AddMetric_def isMetric_def)

lemma AddMetric_metric:
  "isMetric e \<Longrightarrow>
   AddMetric c e =
     Some (c\<lparr>totalMessagesReceived := totalMessagesReceived c + 1,
             metricPoints := (metricPoints c)(seriesKey e \<mapsto>
               \<lparr>tags = sort (parseTags e),
                points = pointsAt c (seriesKey e) @ [seriesPoint e]\<rparr>)\<rparr>)"
  by (auto simp: AddMetric_def isMetric_def getName_def getValue_def seriesKey_def seriesPoint_def
      pointsAt_def hashTags_def Let_def Envelope_ValueMetric_def Envelope_CounterEvent_def
      split: option.splits prod.splits)

lemma bit_len_Suc_0: "bit_len (Suc 0) = Suc 0"
  by (simp add: bit_len.simps)

lemma bit_len_5: "bit_len 5 = 3"
proof -
  have "bit_len 5 = Suc (bit_len 2)" by (subst bit_len.simps) simp
  also have "bit_len 2 = Suc (bit_len (Suc 0))" by (subst bit_len.simps) simp
  finally show ?thesis by (simp add: bit_len_Suc_0)
qed

lemma float64_of_uint64_0: "float64_of_uint64 0 = Float64 0"
  by (simp add: float64_of_uint64_def)

lemma float64_of_uint64_1: "float64_of_uint64 1 = Float64 0x3FF0000000000000"
  by (simp add: float64_of_uint64_def bit_len_Suc_0)

lemma float64_of_uint64_5: "float64_of_uint64 5 = Float64 0x4014000000000000"
  by (simp add: float64_of_uint64_def bit_len_5)

lemma metric_eventType_nonzero: "isMetric e \<Longrightarrow> GetEventType e \<noteq> 0"
  by (auto simp: isMetric_def Envelope_ValueMetric_def Envelope_CounterEvent_def)

subsection \<open>Flush and the delivery outcome\<close>

text \<open>
  C1. Whatever the batch: when the HTTP write succeeds, \<open>PostMetrics\<close> returns no error
  and leaves the client with an empty batch and \<open>totalMetricsSent\<close> increased by the
  number of keys of the batch that was rendered (the batch after the internal metrics
  were added); when the write fails, it returns an error and leaves the client exactly
  as it was when the request was sent, the batch being the rendered one and
  \<open>totalMetricsSent\<close> unchanged.
\<close>

theorem PostMetrics_atomic:
  "(writeSucceeds result \<longrightarrow>
      snd (PostMetrics F clock ks result c) =
        (None, (populateInternalMetrics clock c)
                 \<lparr>totalMetricsSent := totalMetricsSent c
                      + of_nat (card (dom (metricPoints (populateInternalMetrics clock c)))),
                  metricPoints := Map.empty\<rparr>))
   \<and> (\<not> writeSucceeds result \<longrightarrow>
        (\<exists>err. snd (PostMetrics F clock ks result c)
                 = (Some err, populateInternalMetrics clock c))
        \<and> totalMetricsSent (populateInternalMetrics clock c) = totalMetricsSent c)"
  by (auto simp: PostMetrics_def writeSucceeds_def formatMetrics_def
      populate_totalMetricsSent Let_def split: http_result.splits body_read.splits)

theorem PostMetrics_atomic_witness:
  "writeSucceeds (Post_response 204 ''204 No Content'' (ReadAll_ok []))
   \<and> fst (snd (PostMetrics (\<lambda>_. ''1'') (\<lambda>_. 7) []
          (Post_response 204 ''204 No Content'' (ReadAll_ok []))
          (New ''http://influx:8086'' ''metrics'' ''admin'' ''secret'' False ''nozzle.''
             ''cf'' ''10.0.0.1''))) = None
   \<and> totalMetricsSent (snd (snd (PostMetrics (\<lambda>_. ''1'') (\<lambda>_. 7) []
          (Post_response 204 ''204 No Content'' (ReadAll_ok []))
          (New ''http://influx:8086'' ''metrics'' ''admin'' ''secret'' False ''nozzle.''
             ''cf'' ''10.0.0.1'')))) = 3
   \<and> \<not> writeSucceeds (Post_error ''connection refused'')
   \<and> fst (snd (PostMetrics (\<lambda>_. ''1'') (\<lambda>_. 7) [] (Post_error ''connection refused'')
          (New ''http://influx:8086'' ''metrics'' ''admin'' ''secret'' False ''nozzle.''
             ''cf'' ''10.0.0.1''))) = Some ''connection refused''
   \<and> totalMetricsSent (snd (snd (PostMetrics (\<lambda>_. ''1'') (\<lambda>_. 7) []
          (Post_error ''connection refused'')
          (New ''http://influx:8086'' ''metrics'' ''admin'' ''secret'' False ''nozzle.''
             ''cf'' ''10.0.0.1'')))) = 0"
  using
    PostMetrics_atomic [of "Post_response 204 ''204 No Content'' (ReadAll_ok [])"
      "\<lambda>_. ''1''" "\<lambda>_. 7" "[]"
      "New ''http://influx:8086'' ''metrics'' ''admin'' ''secret'' False ''nozzle.''
         ''cf'' ''10.0.0.1''"]
    PostMetrics_atomic [of "Post_error ''connection refused''" "\<lambda>_. ''1''" "\<lambda>_. 7" "[]"
      "New ''http://influx:8086'' ''metrics'' ''admin'' ''secret'' False ''nozzle.''
         ''cf'' ''10.0.0.1''"]
  by (simp add: writeSucceeds_def New_def populateInternalMetrics_def addInternalMetric_def
      containsSlowConsumerAlert_def Let_def PostMetrics_def formatMetrics_def)

subsection \<open>Accumulating an envelope\<close>

text \<open>
  C8. \<open>AddMetric\<close> never panics and increments \<open>totalMessagesReceived\<close> for every
  envelope, whatever its event type. An envelope that is neither a ValueMetric nor a
  CounterEvent leaves the batch as it was. For a ValueMetric or a CounterEvent exactly one
  point is appended to the series of the envelope's key and no other key changes: its
  timestamp is the envelope's timestamp divided by \<open>10^9\<close>, its value is the
  ValueMetric's value, respectively the CounterEvent's total (the delta is not read).
\<close>

theorem AddMetric_counts_and_appends:
  "\<exists>c'. AddMetric c e = Some c'
     \<and> totalMessagesReceived c' = totalMessagesReceived c + 1
     \<and> (\<not> isMetric e \<longrightarrow> metricPoints c' = metricPoints c)
     \<and> (isMetric e \<longrightarrow>
          pointsAt c' (seriesKey e) = pointsAt c (seriesKey e) @
            [\<lparr>Timestamp = word_of_int (sint (GetTimestamp e) sdiv 1000000000),
              Value = (if GetEventType e = Envelope_ValueMetric
                       then ValueMetric_GetValue (GetValueMetric e)
                       else float64_of_uint64 (CounterEvent_GetTotal (GetCounterEvent e)))\<rparr>]
          \<and> (\<forall>k. k \<noteq> seriesKey e \<longrightarrow> metricPoints c' k = metricPoints c k))"
proof (cases "isMetric e")
  case True
  then show ?thesis
    by (simp add: AddMetric_metric pointsAt_def seriesPoint_def)
next
  case False
  then show ?thesis by (simp add: AddMetric_ignored)
qed

theorem AddMetric_counts_and_appends_witness:
  "isMetric exampleCounterEvent
   \<and> (\<exists>c'. AddMetric exampleClient exampleCounterEvent = Some c'
          \<and> totalMessagesReceived c' = 1
          \<and> pointsAt c' (seriesKey exampleCounterEvent)
              = [\<lparr>Timestamp = 2, Value = Float64 0x4014000000000000\<rparr>])
   \<and> isMetric exampleValueMetric
   \<and> (\<exists>c'. AddMetric exampleClient exampleValueMetric = Some c'
          \<and> totalMessagesReceived c' = 1
          \<and> pointsAt c' (seriesKey exampleValueMetric)
              = [\<lparr>Timestamp = 1, Value = Float64 0x4014000000000000\<rparr>])
   \<and> \<not> isMetric exampleLogMessage
   \<and> (\<exists>c'. AddMetric exampleClient exampleLogMessage = Some c'
          \<and> totalMessagesReceived c' = 1 \<and> metricPoints c' = Map.empty)"
proof -
  have v: "GetTimestamp exampleValueMetric = 1000000000"
      "GetEventType exampleValueMetric = Envelope_ValueMetric"
      "ValueMetric_GetValue (GetValueMetric exampleValueMetric) = Float64 0x4014000000000000"
    by (simp_all add: exampleValueMetric_def ValueMetric_GetValue_def)
  have ce: "GetTimestamp exampleCounterEvent = 2000000000"
      "GetEventType exampleCounterEvent = Envelope_CounterEvent"
      "CounterEvent_GetTotal (GetCounterEvent exampleCounterEvent) = 5"
    by (simp_all add: exampleCounterEvent_def CounterEvent_GetTotal_def)
  have l: "GetEventType exampleLogMessage = 5" by (simp add: exampleLogMessage_def)
  have c0: "totalMessagesReceived exampleClient = 0" "metricPoints exampleClient = Map.empty"
    by (simp_all add: exampleClient_def New_def)
  have ne: "Envelope_CounterEvent \<noteq> Envelope_ValueMetric"
    by (simp add: Envelope_CounterEvent_def Envelope_ValueMetric_def)
  have t: "(word_of_int (sint (1000000000 :: 64 word) sdiv 1000000000) :: 64 word) = 1"
     "(word_of_int (sint (2000000000 :: 64 word) sdiv 1000000000) :: 64 word) = 2"
    by (simp_all add: signed_divide_int_def)
  have m: "isMetric exampleCounterEvent" "isMetric exampleValueMetric" "\<not> isMetric exampleLogMessage"
    by (simp_all add: isMetric_def ce v l Envelope_CounterEvent_def Envelope_ValueMetric_def)
  show ?thesis
    using AddMetric_counts_and_appends [of exampleClient exampleCounterEvent]
      AddMetric_counts_and_appends [of exampleClient exampleValueMetric]
      AddMetric_counts_and_appends [of exampleClient exampleLogMessage]
    by (auto simp: m v ce c0 ne t pointsAt_def float64_of_uint64_5)
qed

lemma addInternalMetric_metricPoints:
  "metricPoints (addInternalMetric now c n v) =
     (metricPoints c)(internalKey c n \<mapsto> internalValue c now v)"
  by (simp add: addInternalMetric_def internalKey_def internalValue_def)

lemma addInternalMetric_fields [simp]:
  "client_tagsHash (addInternalMetric now c n v) = client_tagsHash c"
  "ip (addInternalMetric now c n v) = ip c"
  "deployment (addInternalMetric now c n v) = deployment c"
  "prefix (addInternalMetric now c n v) = prefix c"
  "totalMessagesReceived (addInternalMetric now c n v) = totalMessagesReceived c"
  "totalMetricsSent (addInternalMetric now c n v) = totalMetricsSent c"
  by (simp_all add: addInternalMetric_def)

lemma internalKey_addInternalMetric [simp]:
  "internalKey (addInternalMetric now c n v) n' = internalKey c n'"
  by (simp add: internalKey_def)

lemma internalValue_addInternalMetric [simp]:
  "internalValue (addInternalMetric now c n v) = internalValue c"
  by (simp add: internalValue_def fun_eq_iff)

lemma internalKey_eq [simp]: "internalKey c n = internalKey c n' \<longleftrightarrow> n = n'"
  by (simp add: internalKey_def)

lemma eventType_internalKey [simp]: "eventType (internalKey c n) = 0"
  by (simp add: internalKey_def)

lemma tagsHash_internalKey [simp]: "tagsHash (internalKey c n) = client_tagsHash c"
  by (simp add: internalKey_def)

lemma populate_metricPoints:
  "metricPoints (populateInternalMetrics clock c) =
     (let m = (metricPoints c)
            (internalKey c ''totalMessagesReceived'' \<mapsto>
               internalValue c (clock 0) (totalMessagesReceived c),
             internalKey c ''totalMetricsSent'' \<mapsto>
               internalValue c (clock 1) (totalMetricsSent c))
      in if metricPoints c (internalKey c ''slowConsumerAlert'') = None
         then m(internalKey c ''slowConsumerAlert'' \<mapsto> internalValue c (clock 2) 0)
         else m)"
  by (simp add: populateInternalMetrics_def containsSlowConsumerAlert_def Let_def
      addInternalMetric_metricPoints internalKey_def [symmetric])

lemma populate_frame:
  "eventType k \<noteq> 0 \<Longrightarrow> metricPoints (populateInternalMetrics clock c) k = metricPoints c k"
  by (auto simp: populate_metricPoints Let_def)

lemma AddMetric_frame:
  "AddMetric c e = Some c' \<Longrightarrow> eventType k = 0 \<Longrightarrow> metricPoints c' k = metricPoints c k"
proof (cases "isMetric e")
  case True
  assume a: "AddMetric c e = Some c'" "eventType k = 0"
  from True have "eventType (seriesKey e) \<noteq> 0"
    using metric_eventType_nonzero [of e] by (simp add: seriesKey_def)
  with a have "k \<noteq> seriesKey e" by auto
  with a True show ?thesis by (auto simp: AddMetric_metric)
next
  case False
  assume "AddMetric c e = Some c'"
  with False show ?thesis by (auto simp: AddMetric_ignored)
qed

lemma AddMetric_fields:
  assumes "AddMetric c e = Some c'"
  shows "client_tagsHash c' = client_tagsHash c" "ip c' = ip c" "deployment c' = deployment c"
    "prefix c' = prefix c" "totalMetricsSent c' = totalMetricsSent c"
  using assms by (cases "isMetric e"; auto simp: AddMetric_metric AddMetric_ignored)+

lemma AddMetric_total: "\<exists>c'. AddMetric c e = Some c'"
  by (cases "isMetric e") (simp_all add: AddMetric_metric AddMetric_ignored)

lemma run_append:
  "run F c (xs @ ys) = (case run F c xs of None \<Rightarrow> None | Some c' \<Rightarrow> run F c' ys)"
  by (induction xs arbitrary: c) (auto split: option.splits)

lemma run_total: "\<exists>c'. run F c calls = Some c'"
proof (induction calls arbitrary: c)
  case Nil
  show ?case by simp
next
  case (Cons x xs)
  obtain c1 where "step F c x = Some c1"
    using AddMetric_total by (cases x) auto
  with Cons show ?case by simp
qed

lemma run_Consume_frame:
  "run F c (map Consume es) = Some c' \<Longrightarrow> eventType k = 0 \<Longrightarrow>
   metricPoints c' k = metricPoints c k"
proof (induction es arbitrary: c)
  case Nil
  then show ?case by simp
next
  case (Cons e es)
  then obtain c1 where s: "AddMetric c e = Some c1" and r: "run F c1 (map Consume es) = Some c'"
    by (auto split: option.splits)
  from Cons.IH [OF r Cons.prems(2)] AddMetric_frame [OF s Cons.prems(2)]
  show ?case by simp
qed

subsection \<open>Internal and envelope-derived series\<close>

text \<open>
  C10. The keys of internal series and of envelope-derived series are disjoint. A key
  that \<open>AddMetric\<close> changes has event type ValueMetric or CounterEvent, both different
  from zero; a key that \<open>addInternalMetric\<close>, \<open>AlertSlowConsumerError\<close> or
  \<open>populateInternalMetrics\<close> changes has event type zero and the client's tags hash.
  So, in every state, and hence at every point of every history of calls, accumulating
  envelopes leaves every key of event type zero as it was, and adding internal metrics
  leaves every key of another event type as it was.
\<close>

theorem internal_and_envelope_keys_disjoint:
  "Envelope_ValueMetric \<noteq> 0 \<and> Envelope_CounterEvent \<noteq> 0
   \<and> (\<forall>c' k. AddMetric c e = Some c' \<longrightarrow> metricPoints c' k \<noteq> metricPoints c k \<longrightarrow>
         eventType k = Envelope_ValueMetric \<or> eventType k = Envelope_CounterEvent)
   \<and> (\<forall>k. metricPoints (addInternalMetric now c n v) k \<noteq> metricPoints c k \<longrightarrow>
         eventType k = 0 \<and> tagsHash k = client_tagsHash c)
   \<and> (\<forall>k. metricPoints (AlertSlowConsumerError now c) k \<noteq> metricPoints c k \<longrightarrow>
         eventType k = 0 \<and> tagsHash k = client_tagsHash c)
   \<and> (\<forall>k. metricPoints (populateInternalMetrics clock c) k \<noteq> metricPoints c k \<longrightarrow>
         eventType k = 0 \<and> tagsHash k = client_tagsHash c)
   \<and> (\<forall>es c' k. run F c (map Consume es) = Some c' \<longrightarrow> eventType k = 0 \<longrightarrow>
         metricPoints c' k = metricPoints c k)"
proof -
  have a: "Envelope_ValueMetric \<noteq> 0 \<and> Envelope_CounterEvent \<noteq> 0"
    by (simp add: Envelope_ValueMetric_def Envelope_CounterEvent_def)
  have b: "eventType k = Envelope_ValueMetric \<or> eventType k = Envelope_CounterEvent"
    if "AddMetric c e = Some c'" "metricPoints c' k \<noteq> metricPoints c k" for c' k
  proof (cases "isMetric e")
    case True
    with that have "k = seriesKey e" by (auto simp: AddMetric_metric split: if_splits)
    with True show ?thesis by (simp add: seriesKey_def isMetric_def)
  next
    case False
    with that show ?thesis by (auto simp: AddMetric_ignored)
  qed
  have c: "eventType k = 0 \<and> tagsHash k = client_tagsHash c"
    if "metricPoints (addInternalMetric now c n v) k \<noteq> metricPoints c k" for k now n v
    using that by (auto simp: addInternalMetric_metricPoints split: if_splits)
  have d: "eventType k = 0 \<and> tagsHash k = client_tagsHash c"
    if "metricPoints (populateInternalMetrics clock c) k \<noteq> metricPoints c k" for k
    using that by (auto simp: populate_metricPoints Let_def split: if_splits)
  show ?thesis
    using a b c d run_Consume_frame unfolding AlertSlowConsumerError_def by blast
qed

theorem internal_and_envelope_keys_disjoint_witness:
  "(\<exists>c'. AddMetric exampleClient exampleValueMetric = Some c'
      \<and> metricPoints c' (seriesKey exampleValueMetric)
          \<noteq> metricPoints exampleClient (seriesKey exampleValueMetric)
      \<and> eventType (seriesKey exampleValueMetric) = Envelope_ValueMetric)
   \<and> metricPoints (addInternalMetric 7 exampleClient ''totalMetricsSent'' 0)
         (internalKey exampleClient ''totalMetricsSent'')
       \<noteq> metricPoints exampleClient (internalKey exampleClient ''totalMetricsSent'')
   \<and> eventType (internalKey exampleClient ''totalMetricsSent'') = 0
   \<and> (\<exists>c'. run (\<lambda>_. []) (AlertSlowConsumerError 7 exampleClient)
               (map Consume [exampleValueMetric, exampleCounterEvent]) = Some c'
         \<and> metricPoints c' (internalKey exampleClient ''slowConsumerAlert'')
             = Some (internalValue exampleClient 7 1))"
proof -
  let ?a = "AlertSlowConsumerError 7 exampleClient"
  let ?es = "[exampleValueMetric, exampleCounterEvent]"
  have m: "isMetric exampleValueMetric"
    by (simp add: isMetric_def exampleValueMetric_def)
  have e: "metricPoints exampleClient = Map.empty"
    by (simp add: exampleClient_def New_def)
  obtain c' where r: "run (\<lambda>_. []) ?a (map Consume ?es) = Some c'"
    using run_total by blast
  have "\<forall>es c' k. run (\<lambda>_. []) ?a (map Consume es) = Some c' \<longrightarrow> eventType k = 0 \<longrightarrow>
          metricPoints c' k = metricPoints ?a k"
    using internal_and_envelope_keys_disjoint
      [of ?a exampleValueMetric 7 "''x''" 0 "\<lambda>_. 7" "\<lambda>_. []"]
    by blast
  with r eventType_internalKey [of exampleClient "''slowConsumerAlert''"]
  have "metricPoints c' (internalKey exampleClient ''slowConsumerAlert'')
          = metricPoints ?a (internalKey exampleClient ''slowConsumerAlert'')"
    by blast
  then have "metricPoints c' (internalKey exampleClient ''slowConsumerAlert'')
          = Some (internalValue exampleClient 7 1)"
    by (simp add: AlertSlowConsumerError_def addInternalMetric_metricPoints)
  with r m show ?thesis
    by (simp add: AddMetric_metric e addInternalMetric_metricPoints seriesKey_def
        exampleValueMetric_def)
qed


subsection \<open>Grouping by tags\<close>


lemma parseTags_exampleValueMetric:
  "parseTags exampleValueMetric =
     [''deployment=cf'', ''job=doppler'', ''index=1'', ''protocol=http'', ''request_id=a1f5'']"
  by (simp add: parseTags_def exampleValueMetric_def appendTagIfNotEmpty_def)


lemma isMetric_examples:
  "isMetric exampleValueMetric" "isMetric exampleCounterEvent" "\<not> isMetric exampleLogMessage"
  by (simp_all add: isMetric_def exampleValueMetric_def exampleCounterEvent_def
      exampleLogMessage_def Envelope_ValueMetric_def Envelope_CounterEvent_def)



lemma fold_enumerate_commas:
  "fold (\<lambda>(index, tag) acc. (if 0 < index then acc @ '','' else acc) @ f tag)
     (enumerate (Suc n) xs) acc = acc @ concat (map (\<lambda>x. '','' @ f x) xs)"
  by (induction xs arbitrary: n acc) simp_all

lemma formatTags_Nil: "formatTags [] = []"
  by (simp add: formatTags_def)

lemma formatTags_Cons: "formatTags (t # ts) = t @ concat (map (\<lambda>x. '','' @ x) ts)"
  using fold_enumerate_commas [of "\<lambda>x. x" 0 ts t] by (simp add: formatTags_def)

lemma formatValues_Nil: "formatValues F [] = []"
  by (simp add: formatValues_def)

lemma formatValues_Cons:
  "formatValues F (p # ps) =
     ''value='' @ F (Value p) @ concat (map (\<lambda>x. '','' @ ''value='' @ F (Value x)) ps)"
  using fold_enumerate_commas [of "\<lambda>x. ''value='' @ F (Value x)" 0 ps "''value='' @ F (Value p)"]
  by (simp add: formatValues_def)

subsection \<open>Tag order\<close>

text \<open>
  C7, as amended. \<open>hashTags\<close> sorts the slice it is given in place: after the call the
  caller's tags are the sorted permutation of what they were. The hash is the same for
  any two orders of the same tags, so tag order never influences series identity. The
  tags that \<open>AddMetric\<close> stores in the series, and that are rendered in the stored order
  on the wire, are therefore the envelope's tags in sorted order, not in construction
  order.
\<close>

theorem hashTags_sorts_in_place:
  "sorted (fst (hashTags ts)) \<and> mset (fst (hashTags ts)) = mset ts
   \<and> (mset ts = mset ts' \<longrightarrow> snd (hashTags ts) = snd (hashTags ts'))
   \<and> (isMetric e \<longrightarrow>
        (\<exists>c'. AddMetric c e = Some c'
           \<and> map_option tags (metricPoints c' (seriesKey e)) = Some (sort (parseTags e))))
   \<and> formatSeries F now c k \<lparr>tags = tag # rest, points = ps\<rparr> =
        prefix c @ name k @ '','' @ tag
          @ concat (map (\<lambda>x. '','' @ x) (rest @ [''potato=face'']))
          @ '' '' @ formatValues F ps @ '' '' @ formatTimestamp now ps @ [CHR 0x0A]"
  using hashTags_mset [of ts ts']
  by (simp add: hashTags_fst AddMetric_metric formatSeries_def formatTags_Cons)

theorem hashTags_sorts_in_place_counterexample:
  "parseTags exampleValueMetric =
     [''deployment=cf'', ''job=doppler'', ''index=1'', ''protocol=http'', ''request_id=a1f5'']
   \<and> fst (hashTags (parseTags exampleValueMetric)) =
     [''deployment=cf'', ''index=1'', ''job=doppler'', ''protocol=http'', ''request_id=a1f5'']
   \<and> fst (hashTags (parseTags exampleValueMetric)) \<noteq> parseTags exampleValueMetric
   \<and> (\<exists>c'. AddMetric exampleClient exampleValueMetric = Some c'
         \<and> map_option tags (metricPoints c' (seriesKey exampleValueMetric)) =
             Some [''deployment=cf'', ''index=1'', ''job=doppler'', ''protocol=http'',
                   ''request_id=a1f5''])"
  by (simp add: parseTags_exampleValueMetric hashTags_fst AddMetric_metric isMetric_examples)

theorem hashTags_sorts_in_place_witness:
  "mset [''job=doppler'', ''index=1''] = mset [''index=1'', ''job=doppler'']
   \<and> snd (hashTags [''job=doppler'', ''index=1'']) = snd (hashTags [''index=1'', ''job=doppler''])
   \<and> fst (hashTags [''job=doppler'', ''index=1'']) = [''index=1'', ''job=doppler'']
   \<and> isMetric exampleValueMetric
   \<and> (\<exists>c'. AddMetric exampleClient exampleValueMetric = Some c'
         \<and> map_option tags (metricPoints c' (seriesKey exampleValueMetric)) =
             Some [''deployment=cf'', ''index=1'', ''job=doppler'', ''protocol=http'',
                   ''request_id=a1f5''])"
proof -
  have s: "sort (parseTags exampleValueMetric) =
      [''deployment=cf'', ''index=1'', ''job=doppler'', ''protocol=http'', ''request_id=a1f5'']"
    by (simp add: parseTags_exampleValueMetric)
  have m: "mset [''job=doppler'', ''index=1''] = mset [''index=1'', ''job=doppler'']"
    by simp
  have f: "fst (hashTags [''job=doppler'', ''index=1'']) = [''index=1'', ''job=doppler'']"
    by (simp add: hashTags_fst)
  show ?thesis
    using hashTags_sorts_in_place
      [of "[''job=doppler'', ''index=1'']" "[''index=1'', ''job=doppler'']"
        exampleValueMetric exampleClient]
      m f
    by (simp add: isMetric_examples s)
qed

lemma carries_prefix: "carries (s @ b) s"
proof (cases "s @ b")
  case Nil
  then show ?thesis by simp
next
  case (Cons a list)
  have "take (length s) (s @ b) = s" by simp
  with Cons show ?thesis by simp
qed

lemma carries_append: "carries (a @ s @ b) s"
  by (induction a) (simp_all add: carries_prefix)

lemma PostMetrics_request:
  "fst (PostMetrics F clock ks result c) =
     \<lparr>reqURL = seriesURL c, reqContentType = ''application/binary'',
      reqBody = fst (formatMetrics F clock ks (populateInternalMetrics clock c)),
      reqInsecureSkipVerify = True\<rparr>"
  by (simp add: PostMetrics_def Let_def split: prod.splits http_result.splits body_read.splits)

lemma PostMetrics_client:
  "snd (snd (PostMetrics F clock ks result c)) =
     (if writeSucceeds result
      then (populateInternalMetrics clock c)
             \<lparr>totalMetricsSent := totalMetricsSent c
                  + of_nat (card (dom (metricPoints (populateInternalMetrics clock c)))),
              metricPoints := Map.empty\<rparr>
      else populateInternalMetrics clock c)"
  by (auto simp: PostMetrics_def writeSucceeds_def formatMetrics_def
      populate_totalMetricsSent Let_def split: http_result.splits body_read.splits)

lemma populate_credentials:
  "populateInternalMetrics clock (c\<lparr>user := u, password := p, allowSelfSigned := s\<rparr>)
     = (populateInternalMetrics clock c)\<lparr>user := u, password := p, allowSelfSigned := s\<rparr>"
  by (simp add: populateInternalMetrics_def addInternalMetric_def containsSlowConsumerAlert_def
      Let_def)

lemma formatMetrics_credentials:
  "formatMetrics F clock ks (c\<lparr>user := u, password := p, allowSelfSigned := s\<rparr>)
     = formatMetrics F clock ks c"
proof -
  have "formatSeries F now (c\<lparr>user := u, password := p, allowSelfSigned := s\<rparr>) key mVal
      = formatSeries F now c key mVal" for now key mVal
    by (simp add: formatSeries_def)
  then show ?thesis
    by (simp add: formatMetrics_def cong: option.case_cong)
qed

subsection \<open>Classifying the response\<close>

text \<open>
  C3, as amended. A response with a status code in [200, 300) gives no error. A response
  with any other status code gives an error: when its body can be read, the message
  carries the HTTP status and the body; when reading the body fails, the message is
  \<open>Can't read response body:\<close> followed by the status, and what was read of the body
  is dropped. A transport failure gives the transport's own error.
\<close>

theorem PostMetrics_classifies_response:
  "(200 \<le> code \<and> code < 300 \<longrightarrow>
      fst (snd (PostMetrics F clock ks (Post_response code status body) c)) = None)
   \<and> (\<not> (200 \<le> code \<and> code < 300) \<longrightarrow>
        (\<exists>msg. fst (snd (PostMetrics F clock ks
                     (Post_response code status (ReadAll_ok errBody)) c)) = Some msg
           \<and> carries msg status \<and> carries msg errBody)
        \<and> (\<exists>msg. fst (snd (PostMetrics F clock ks
                     (Post_response code status (ReadAll_error partial err)) c)) = Some msg
           \<and> msg = ''Can't read response body: '' @ status \<and> carries msg status))
   \<and> fst (snd (PostMetrics F clock ks (Post_error err) c)) = Some err"
proof -
  have a: "carries (''InfluxDB request returned HTTP response: '' @ status
             @ [CHR '';'', CHR 0x0A] @ errBody) status"
    by (rule carries_append)
  have b: "carries (''InfluxDB request returned HTTP response: '' @ status
             @ [CHR '';'', CHR 0x0A] @ errBody) errBody"
    using carries_append [of "''InfluxDB request returned HTTP response: '' @ status
             @ [CHR '';'', CHR 0x0A]" errBody "[]"] by simp
  have c: "carries (''Can't read response body: '' @ status) status"
    using carries_append [of "''Can't read response body: ''" status "[]"] by simp
  show ?thesis
    using a b c
    by (auto simp: PostMetrics_def Let_def split: prod.splits)
qed

theorem PostMetrics_classifies_response_counterexample:
  "\<not> (200 \<le> (400 :: int) \<and> (400 :: int) < 300)
   \<and> fst (snd (PostMetrics (\<lambda>_. []) (\<lambda>_. 7) []
          (Post_response 400 ''400 Bad Request''
             (ReadAll_error ''field type conflict'' ''unexpected EOF''))
          exampleClient))
       = Some ''Can't read response body: 400 Bad Request''
   \<and> \<not> carries ''Can't read response body: 400 Bad Request'' ''field type conflict''"
  by (simp add: PostMetrics_def Let_def split: prod.splits)

theorem PostMetrics_classifies_response_witness:
  "(200 :: int) \<le> 204 \<and> (204 :: int) < 300
   \<and> fst (snd (PostMetrics (\<lambda>_. []) (\<lambda>_. 7) []
          (Post_response 204 ''204 No Content'' (ReadAll_ok [])) exampleClient)) = None
   \<and> \<not> (200 \<le> (101 :: int) \<and> (101 :: int) < 300)
   \<and> fst (snd (PostMetrics (\<lambda>_. []) (\<lambda>_. 7) []
          (Post_response 101 ''101 Switching Protocols'' (ReadAll_ok ''upgrade'')) exampleClient))
       = Some (''InfluxDB request returned HTTP response: 101 Switching Protocols''
                 @ [CHR '';'', CHR 0x0A] @ ''upgrade'')
   \<and> carries (''InfluxDB request returned HTTP response: 101 Switching Protocols''
                 @ [CHR '';'', CHR 0x0A] @ ''upgrade'') ''101 Switching Protocols''
   \<and> carries (''InfluxDB request returned HTTP response: 101 Switching Protocols''
                 @ [CHR '';'', CHR 0x0A] @ ''upgrade'') ''upgrade''
   \<and> fst (snd (PostMetrics (\<lambda>_. []) (\<lambda>_. 7) []
          (Post_response 101 ''101 Switching Protocols''
             (ReadAll_error ''upg'' ''unexpected EOF'')) exampleClient))
       = Some ''Can't read response body: 101 Switching Protocols''"
proof -
  have e: "fst (snd (PostMetrics (\<lambda>_. []) (\<lambda>_. 7) []
          (Post_response 101 ''101 Switching Protocols'' (ReadAll_ok ''upgrade'')) exampleClient))
       = Some (''InfluxDB request returned HTTP response: 101 Switching Protocols''
                 @ [CHR '';'', CHR 0x0A] @ ''upgrade'')"
    by (simp add: PostMetrics_def Let_def split: prod.splits)
  show ?thesis
    using PostMetrics_classifies_response
        [of 204 "\<lambda>_. []" "\<lambda>_. 7" "[]" "''204 No Content''" "ReadAll_ok []" exampleClient]
      PostMetrics_classifies_response
        [of 101 "\<lambda>_. []" "\<lambda>_. 7" "[]" "''101 Switching Protocols''" "ReadAll_ok []"
          exampleClient "''upgrade''" "''upg''" "''unexpected EOF''"]
      e
    by auto
qed

subsection \<open>What reaches the outbound write\<close>

text \<open>
  C4. The request goes to the base URL followed by \<open>/write?db=\<close> and the database. The
  request is the same whatever user, password and self-signed switch the client was
  built with, and it always skips the verification of the server's certificate: the
  credentials and the switch are stored by \<open>New\<close> and never read.
\<close>

theorem PostMetrics_request_ignores_credentials_and_switch:
  "reqURL (fst (PostMetrics F clock ks result
      (New url' database' user' password' allowSelfSigned' prefix' deployment' ip')))
     = url' @ ''/write?db='' @ database'
   \<and> fst (PostMetrics F clock ks result
        (New url' database' user' password' allowSelfSigned' prefix' deployment' ip'))
     = fst (PostMetrics F clock ks result
        (New url' database' [] [] True prefix' deployment' ip'))
   \<and> reqInsecureSkipVerify (fst (PostMetrics F clock ks result
        (New url' database' user' password' False prefix' deployment' ip'))) = True"
proof -
  let ?c = "New url' database' [] [] True prefix' deployment' ip'"
  have n: "New url' database' u p s prefix' deployment' ip'
      = ?c\<lparr>user := u, password := p, allowSelfSigned := s\<rparr>" for u p s
    by (simp add: New_def)
  have r: "fst (PostMetrics F clock ks result (?c\<lparr>user := u, password := p, allowSelfSigned := s\<rparr>))
      = fst (PostMetrics F clock ks result ?c)" for u p s
    by (simp add: PostMetrics_request populate_credentials formatMetrics_credentials
        seriesURL_def)
  have eq: "fst (PostMetrics F clock ks result
        (New url' database' u p s prefix' deployment' ip'))
      = fst (PostMetrics F clock ks result ?c)" for u p s
    by (subst n) (rule r)
  note e1 = eq [of user' password' allowSelfSigned'] and e2 = eq [of user' password' False]
  have "reqURL (fst (PostMetrics F clock ks result ?c)) = url' @ ''/write?db='' @ database'"
    and "reqInsecureSkipVerify (fst (PostMetrics F clock ks result ?c)) = True"
    by (simp_all add: PostMetrics_request seriesURL_def New_def)
  then show ?thesis
    by (simp only: e1 e2 simp_thms)
qed

lemma formatMetrics_body:
  "fst (formatMetrics F clock ks c) =
     concat (map (\<lambda>(i, key). case metricPoints c key of
                                None \<Rightarrow> []
                              | Some mVal \<Rightarrow> formatSeries F (clock (3 + i)) c key mVal)
               (enumerate 0 ks))"
proof -
  have "(\<lambda>(i, key) buffer. case metricPoints c key of
            None \<Rightarrow> buffer
          | Some mVal \<Rightarrow> buffer @ formatSeries F (clock (3 + i)) c key mVal)
      = (\<lambda>x acc. acc @ (case x of (i, key) \<Rightarrow> (case metricPoints c key of
            None \<Rightarrow> []
          | Some mVal \<Rightarrow> formatSeries F (clock (3 + i)) c key mVal)))"
    by (auto simp: fun_eq_iff split: option.splits)
  then show ?thesis
    by (simp add: formatMetrics_def fold_append)
qed

lemma carries_concat:
  "i < length xs \<Longrightarrow> carries (concat (map f xs)) (f (xs ! i))"
proof -
  assume i: "i < length xs"
  then have "xs = take i xs @ xs ! i # drop (Suc i) xs"
    by (simp add: id_take_nth_drop)
  then have "concat (map f xs) =
      concat (map f (take i xs)) @ f (xs ! i) @ concat (map f (drop (Suc i) xs))"
    by (metis concat.simps(2) concat_append list.simps(9) map_append)
  then show ?thesis by (simp add: carries_append)
qed

lemma body_carries_series:
  assumes "key \<in> set ks" and "metricPoints c key = Some mVal"
  shows "\<exists>i < length ks. carries (fst (formatMetrics F clock ks c))
           (formatSeries F (clock (3 + i)) c key mVal)"
proof -
  from assms(1) obtain i where i: "i < length ks" "ks ! i = key"
    by (auto simp: in_set_conv_nth)
  let ?f = "\<lambda>(i, key). case metricPoints c key of
              None \<Rightarrow> [] | Some mVal \<Rightarrow> formatSeries F (clock (3 + i)) c key mVal"
  have "carries (concat (map ?f (enumerate 0 ks))) (?f (enumerate 0 ks ! i))"
    using i(1) by (intro carries_concat) simp
  moreover have "?f (enumerate 0 ks ! i) = formatSeries F (clock (3 + i)) c key mVal"
    using i assms(2) by (simp add: nth_enumerate_eq)
  ultimately show ?thesis using i(1) by (auto simp: formatMetrics_body)
qed

lemma formatTimestamp_Cons:
  "formatTimestamp now (p # ps) = FormatInt (Timestamp p * 1000 * 1000 * 1000)"
  by (simp add: formatTimestamp_def)

lemma formatSeries_internal:
  "prefix c' = prefix c \<Longrightarrow>
   formatSeries F now c' (internalKey c n) (internalValue c t v) = internalLine F c n t v"
  by (simp add: formatSeries_def internalKey_def internalValue_def internalLine_def
      formatTags_Cons formatValues_Cons formatTimestamp_Cons)

lemma populate_fields [simp]:
  "client_tagsHash (populateInternalMetrics clock c) = client_tagsHash c"
  "ip (populateInternalMetrics clock c) = ip c"
  "deployment (populateInternalMetrics clock c) = deployment c"
  "prefix (populateInternalMetrics clock c) = prefix c"
  "totalMessagesReceived (populateInternalMetrics clock c) = totalMessagesReceived c"
  by (subst populateInternalMetrics_other_fields, simp)+

lemma step_fields:
  assumes "step F c x = Some c'"
  shows "client_tagsHash c' = client_tagsHash c \<and> ip c' = ip c \<and> deployment c' = deployment c
    \<and> prefix c' = prefix c"
proof (cases x)
  case (Consume e)
  with assms show ?thesis by (simp add: AddMetric_fields)
next
  case (Alert t)
  with assms show ?thesis by (auto simp: AlertSlowConsumerError_def)
next
  case (Flush clock ks result)
  with assms show ?thesis by (auto simp: PostMetrics_client)
qed

lemma run_fields:
  "run F c calls = Some c' \<Longrightarrow>
   client_tagsHash c' = client_tagsHash c \<and> ip c' = ip c \<and> deployment c' = deployment c
    \<and> prefix c' = prefix c"
proof (induction calls arbitrary: c)
  case Nil
  then show ?case by simp
next
  case (Cons x xs)
  then obtain c1 where s: "step F c x = Some c1" and r: "run F c1 xs = Some c'"
    by (auto split: option.splits)
  from Cons.IH [OF r] step_fields [OF s] show ?case by simp
qed

lemma internalKey_cong:
  "client_tagsHash c' = client_tagsHash c \<Longrightarrow> internalKey c' = internalKey c"
  by (simp add: internalKey_def fun_eq_iff)

lemma internalValue_cong:
  "ip c' = ip c \<Longrightarrow> deployment c' = deployment c \<Longrightarrow> internalValue c' = internalValue c"
  by (simp add: internalValue_def fun_eq_iff)

lemma run_Consume_points:
  "run F c (map Consume es) = Some c' \<Longrightarrow>
   pointsAt c' k = pointsAt c k @ map seriesPoint (filter (\<lambda>e. isMetric e \<and> seriesKey e = k) es)"
proof (induction es arbitrary: c)
  case Nil
  then show ?case by simp
next
  case (Cons e es)
  then obtain c1 where s: "AddMetric c e = Some c1" and r: "run F c1 (map Consume es) = Some c'"
    by (auto split: option.splits)
  have "pointsAt c1 k = pointsAt c k @ (if isMetric e \<and> seriesKey e = k then [seriesPoint e] else [])"
    using s by (cases "isMetric e") (auto simp: AddMetric_metric AddMetric_ignored pointsAt_def)
  with Cons.IH [OF r] show ?case by simp
qed

text \<open>No alert is pending: the alert key is absent or holds the value 0.\<close>

lemma populate_alert:
  "metricPoints (populateInternalMetrics clock c) (internalKey c ''slowConsumerAlert'') =
     (case metricPoints c (internalKey c ''slowConsumerAlert'') of
        None \<Rightarrow> Some (internalValue c (clock 2) 0)
      | Some v \<Rightarrow> Some v)"
  by (auto simp: populate_metricPoints Let_def split: option.splits)

lemma step_no_alert:
  assumes "step F c x = Some c'" and "\<not> isAlert x"
    and "metricPoints c (internalKey c ''slowConsumerAlert'') = None
         \<or> (\<exists>t. metricPoints c (internalKey c ''slowConsumerAlert'') = Some (internalValue c t 0))"
  shows "metricPoints c' (internalKey c ''slowConsumerAlert'') = None
         \<or> (\<exists>t. metricPoints c' (internalKey c ''slowConsumerAlert'') = Some (internalValue c t 0))"
proof (cases x)
  case (Consume e)
  with assms(1) have "metricPoints c' (internalKey c ''slowConsumerAlert'')
      = metricPoints c (internalKey c ''slowConsumerAlert'')"
    by (auto intro: AddMetric_frame)
  with assms(3) show ?thesis by simp
next
  case (Alert t)
  with assms(2) show ?thesis by simp
next
  case (Flush clock ks result)
  with assms(1) have c': "c' = snd (snd (PostMetrics F clock ks result c))" by simp
  show ?thesis
    using assms(3) unfolding c' PostMetrics_client
    by (auto simp: populate_alert)
qed

lemma run_no_alert:
  assumes "run F c calls = Some c'" and "\<not> list_ex isAlert calls"
    and "metricPoints c (internalKey c ''slowConsumerAlert'') = None
         \<or> (\<exists>t. metricPoints c (internalKey c ''slowConsumerAlert'') = Some (internalValue c t 0))"
  shows "metricPoints c' (internalKey c ''slowConsumerAlert'') = None
         \<or> (\<exists>t. metricPoints c' (internalKey c ''slowConsumerAlert'') = Some (internalValue c t 0))"
  using assms
proof (induction calls arbitrary: c)
  case Nil
  then show ?case by simp
next
  case (Cons x xs)
  from Cons.prems(1) obtain c1 where s: "step F c x = Some c1" and r: "run F c1 xs = Some c'"
    by (auto split: option.splits)
  from Cons.prems(2) have nx: "\<not> isAlert x" and nxs: "\<not> list_ex isAlert xs" by simp_all
  note f = step_fields [OF s]
  have k: "internalKey c1 = internalKey c"
    by (rule internalKey_cong) (simp add: f)
  have v: "internalValue c1 = internalValue c"
    by (rule internalValue_cong) (simp_all add: f)
  from step_no_alert [OF s nx Cons.prems(3)]
  have "metricPoints c1 (internalKey c1 ''slowConsumerAlert'') = None
         \<or> (\<exists>t. metricPoints c1 (internalKey c1 ''slowConsumerAlert'')
                 = Some (internalValue c1 t 0))"
    by (simp add: k v)
  from Cons.IH [OF r nxs this] show ?case by (simp add: k v)
qed

lemma rendered_line:
  assumes "distinct ks \<and> set ks = dom (metricPoints (populateInternalMetrics clock c2))"
    and "metricPoints (populateInternalMetrics clock c2) (internalKey c n) = Some (internalValue c t v)"
    and "prefix c2 = prefix c"
  shows "carries (reqBody (fst (PostMetrics F clock ks result c2))) (internalLine F c n t v)"
proof -
  let ?c3 = "populateInternalMetrics clock c2"
  from assms(1,2) have "internalKey c n \<in> set ks" by auto
  from body_carries_series [OF this assms(2), of F clock]
  obtain i where "carries (fst (formatMetrics F clock ks ?c3))
      (formatSeries F (clock (3 + i)) ?c3 (internalKey c n) (internalValue c t v))"
    by blast
  moreover have "prefix ?c3 = prefix c" using assms(3) by simp
  ultimately show ?thesis
    by (simp add: PostMetrics_request formatSeries_internal)
qed

lemma alert_then_flush:
  assumes r: "run F (AlertSlowConsumerError t c) (map Consume es) = Some c2"
  shows "metricPoints (populateInternalMetrics clock c2) (internalKey c ''slowConsumerAlert'')
        = Some (internalValue c t 1)"
    and "prefix c2 = prefix c"
proof -
  let ?a = "AlertSlowConsumerError t c"
  have f: "client_tagsHash c2 = client_tagsHash c" "prefix c2 = prefix c"
    using run_fields [OF r] by (simp_all add: AlertSlowConsumerError_def)
  have k: "internalKey c2 = internalKey c" by (rule internalKey_cong [OF f(1)])
  have "metricPoints c2 (internalKey c ''slowConsumerAlert'')
      = metricPoints ?a (internalKey c ''slowConsumerAlert'')"
    by (rule run_Consume_frame [OF r]) simp
  also have "\<dots> = Some (internalValue c t 1)"
    by (simp add: AlertSlowConsumerError_def addInternalMetric_metricPoints)
  finally have a: "metricPoints c2 (internalKey c ''slowConsumerAlert'') = Some (internalValue c t 1)" .
  have "metricPoints (populateInternalMetrics clock c2) (internalKey c2 ''slowConsumerAlert'')
      = Some (internalValue c t 1)"
    by (subst populate_alert) (simp add: k a)
  then show "metricPoints (populateInternalMetrics clock c2) (internalKey c ''slowConsumerAlert'')
        = Some (internalValue c t 1)"
    by (simp only: k)
  show "prefix c2 = prefix c" by (rule f(2))
qed

lemma no_alert_then_flush:
  assumes r: "run F c calls = Some c2" and n: "\<not> list_ex isAlert calls"
    and e: "metricPoints c (internalKey c ''slowConsumerAlert'') = None"
  shows "\<exists>t'. metricPoints (populateInternalMetrics clock c2)
           (internalKey c ''slowConsumerAlert'') = Some (internalValue c t' 0)"
    and "prefix c2 = prefix c"
proof -
  have f: "client_tagsHash c2 = client_tagsHash c" "ip c2 = ip c" "deployment c2 = deployment c"
      "prefix c2 = prefix c"
    using run_fields [OF r] by simp_all
  have k: "internalKey c2 = internalKey c"
    by (rule internalKey_cong) (simp add: f)
  have v: "internalValue c2 = internalValue c"
    by (rule internalValue_cong) (simp_all add: f)
  from run_no_alert [OF r n] e
  have "metricPoints c2 (internalKey c ''slowConsumerAlert'') = None
      \<or> (\<exists>t. metricPoints c2 (internalKey c ''slowConsumerAlert'') = Some (internalValue c t 0))"
    by simp
  moreover have "metricPoints (populateInternalMetrics clock c2) (internalKey c ''slowConsumerAlert'')
      = (case metricPoints c2 (internalKey c ''slowConsumerAlert'') of
           None \<Rightarrow> Some (internalValue c (clock 2) 0) | Some v \<Rightarrow> Some v)"
    using populate_alert [of clock c2] by (simp only: k v)
  ultimately show "\<exists>t'. metricPoints (populateInternalMetrics clock c2)
           (internalKey c ''slowConsumerAlert'') = Some (internalValue c t' 0)"
    by auto
  show "prefix c2 = prefix c" by (rule f(4))
qed

subsection \<open>The slow-consumer alert\<close>

text \<open>
  C6. The alert is one-shot. After \<open>AlertSlowConsumerError\<close> (and any envelopes consumed
  since), the batch that \<open>PostMetrics\<close> renders holds the \<open>slowConsumerAlert\<close> series
  with the single value 1, and the payload carries its line. From a client whose batch
  has no \<open>slowConsumerAlert\<close> series, as after \<open>New\<close> or a successful flush, and through
  any calls other than \<open>AlertSlowConsumerError\<close>, the rendered batch holds the series
  with the single value 0 and the payload carries that line. A successful flush leaves
  no \<open>slowConsumerAlert\<close> series behind: after an alert and a successful flush, and
  through any calls other than \<open>AlertSlowConsumerError\<close>, the next flush renders 0
  again. Here \<open>ks\<close> lists the keys of the rendered batch
  in the order of rendering.
\<close>

theorem slowConsumerAlert_one_shot:
  "(run F (AlertSlowConsumerError t c) (map Consume es) = Some c' \<longrightarrow>
      metricPoints (populateInternalMetrics clock c') (internalKey c ''slowConsumerAlert'')
        = Some (internalValue c t 1)
      \<and> (distinct ks \<and> set ks = dom (metricPoints (populateInternalMetrics clock c')) \<longrightarrow>
           carries (reqBody (fst (PostMetrics F clock ks result c')))
             (internalLine F c ''slowConsumerAlert'' t 1)))
   \<and> (metricPoints c (internalKey c ''slowConsumerAlert'') = None
        \<and> \<not> list_ex isAlert calls \<and> run F c calls = Some c' \<longrightarrow>
        (\<exists>t'. metricPoints (populateInternalMetrics clock c')
                 (internalKey c ''slowConsumerAlert'') = Some (internalValue c t' 0)
           \<and> (distinct ks \<and> set ks = dom (metricPoints (populateInternalMetrics clock c')) \<longrightarrow>
                carries (reqBody (fst (PostMetrics F clock ks result c')))
                  (internalLine F c ''slowConsumerAlert'' t' 0))))
   \<and> (writeSucceeds first_result \<and> \<not> list_ex isAlert calls
        \<and> run F (AlertSlowConsumerError t c) (Flush first_clock first_ks first_result # calls) = Some c' \<longrightarrow>
        (\<exists>t'. metricPoints (populateInternalMetrics clock c')
                 (internalKey c ''slowConsumerAlert'') = Some (internalValue c t' 0)
           \<and> (distinct ks \<and> set ks = dom (metricPoints (populateInternalMetrics clock c')) \<longrightarrow>
                carries (reqBody (fst (PostMetrics F clock ks result c')))
                  (internalLine F c ''slowConsumerAlert'' t' 0))))"
proof (intro conjI impI)
  assume r: "run F (AlertSlowConsumerError t c) (map Consume es) = Some c'"
  show p: "metricPoints (populateInternalMetrics clock c') (internalKey c ''slowConsumerAlert'')
        = Some (internalValue c t 1)"
    by (rule alert_then_flush(1) [OF r])
  assume "distinct ks \<and> set ks = dom (metricPoints (populateInternalMetrics clock c'))"
  from rendered_line [OF this p alert_then_flush(2) [OF r]]
  show "carries (reqBody (fst (PostMetrics F clock ks result c')))
      (internalLine F c ''slowConsumerAlert'' t 1)" .
next
  assume h: "metricPoints c (internalKey c ''slowConsumerAlert'') = None
      \<and> \<not> list_ex isAlert calls \<and> run F c calls = Some c'"
  then have r: "run F c calls = Some c'" and n: "\<not> list_ex isAlert calls"
    and e: "metricPoints c (internalKey c ''slowConsumerAlert'') = None"
    by simp_all
  from no_alert_then_flush(1) [OF r n e, of clock]
  obtain t' where p: "metricPoints (populateInternalMetrics clock c')
      (internalKey c ''slowConsumerAlert'') = Some (internalValue c t' 0)"
    by blast
  have "distinct ks \<and> set ks = dom (metricPoints (populateInternalMetrics clock c')) \<longrightarrow>
      carries (reqBody (fst (PostMetrics F clock ks result c')))
        (internalLine F c ''slowConsumerAlert'' t' 0)"
    using rendered_line [OF _ p no_alert_then_flush(2) [OF r n e]] by blast
  with p show "\<exists>t'. metricPoints (populateInternalMetrics clock c')
        (internalKey c ''slowConsumerAlert'') = Some (internalValue c t' 0)
      \<and> (distinct ks \<and> set ks = dom (metricPoints (populateInternalMetrics clock c')) \<longrightarrow>
           carries (reqBody (fst (PostMetrics F clock ks result c')))
             (internalLine F c ''slowConsumerAlert'' t' 0))"
    by blast
next
  assume h: "writeSucceeds first_result \<and> \<not> list_ex isAlert calls
      \<and> run F (AlertSlowConsumerError t c) (Flush first_clock first_ks first_result # calls) = Some c'"
  let ?c1 = "snd (snd (PostMetrics F first_clock first_ks first_result (AlertSlowConsumerError t c)))"
  from h have r: "run F ?c1 calls = Some c'" and n: "\<not> list_ex isAlert calls"
    and w: "writeSucceeds first_result"
    by simp_all
  have f: "client_tagsHash ?c1 = client_tagsHash c" "ip ?c1 = ip c"
      "deployment ?c1 = deployment c" "prefix ?c1 = prefix c"
    by (simp_all add: PostMetrics_client AlertSlowConsumerError_def)
  have k: "internalKey ?c1 = internalKey c"
    by (rule internalKey_cong) (rule f(1))
  have v: "internalValue ?c1 = internalValue c"
    by (rule internalValue_cong) (rule f(2), rule f(3))
  have e: "metricPoints ?c1 (internalKey ?c1 ''slowConsumerAlert'') = None"
    using w by (simp add: PostMetrics_client)
  from no_alert_then_flush(1) [OF r n e, of clock]
  obtain t' where p: "metricPoints (populateInternalMetrics clock c')
      (internalKey c ''slowConsumerAlert'') = Some (internalValue c t' 0)"
    unfolding k v by blast
  have q: "prefix c' = prefix c"
    using no_alert_then_flush(2) [OF r n e] f(4) by simp
  have "distinct ks \<and> set ks = dom (metricPoints (populateInternalMetrics clock c')) \<longrightarrow>
      carries (reqBody (fst (PostMetrics F clock ks result c')))
        (internalLine F c ''slowConsumerAlert'' t' 0)"
    using rendered_line [OF _ p q] by blast
  with p show "\<exists>t'. metricPoints (populateInternalMetrics clock c')
        (internalKey c ''slowConsumerAlert'') = Some (internalValue c t' 0)
      \<and> (distinct ks \<and> set ks = dom (metricPoints (populateInternalMetrics clock c')) \<longrightarrow>
           carries (reqBody (fst (PostMetrics F clock ks result c')))
             (internalLine F c ''slowConsumerAlert'' t' 0))"
    by blast
qed

lemma exampleClient_fields:
  "metricPoints exampleClient = Map.empty" "prefix exampleClient = ''nozzle.''"
  "ip exampleClient = ''10.0.0.1''" "deployment exampleClient = ''cf''"
  "totalMessagesReceived exampleClient = 0" "totalMetricsSent exampleClient = 0"
  "client_tagsHash exampleClient = []"
  by (simp_all add: exampleClient_def New_def)

lemma exampleKeys_enumerate:
  assumes "dom (metricPoints c) \<subseteq> set exampleKeys"
    and "client_tagsHash c = client_tagsHash exampleClient"
  shows "distinct exampleKeys
    \<and> set exampleKeys = dom (metricPoints (populateInternalMetrics clock c))"
proof -
  have k: "internalKey c = internalKey exampleClient"
    by (rule internalKey_cong) (rule assms(2))
  show ?thesis
    using assms(1) unfolding populate_metricPoints k
    by (auto simp: exampleKeys_def Let_def)
qed

lemma internalLine_example:
  "internalLine exampleFormatFloat exampleClient ''slowConsumerAlert'' 7 1 =
     ''nozzle.slowConsumerAlert,ip=10.0.0.1,deployment=cf,potato=face value=1 7000000000''
       @ [CHR 0x0A]"
  "internalLine exampleFormatFloat exampleClient ''slowConsumerAlert'' 9 0 =
     ''nozzle.slowConsumerAlert,ip=10.0.0.1,deployment=cf,potato=face value=0 9000000000''
       @ [CHR 0x0A]"
  by (simp_all add: internalLine_def exampleClient_fields exampleFormatFloat_def
      float64_of_uint64_0 float64_of_uint64_1 FormatInt_def nat_digits.simps)

lemma example_after_alert:
  "distinct exampleKeys
    \<and> set exampleKeys = dom (metricPoints (populateInternalMetrics clock
          (AlertSlowConsumerError 7 exampleClient)))"
  by (rule exampleKeys_enumerate)
    (simp_all add: AlertSlowConsumerError_def addInternalMetric_metricPoints exampleKeys_def
       exampleClient_fields)

lemma example_counters:
  "distinct exampleKeys
    \<and> set exampleKeys = dom (metricPoints (populateInternalMetrics clock
          (exampleClient\<lparr>totalMessagesReceived := 1\<rparr>)))"
  "distinct exampleKeys
    \<and> set exampleKeys = dom (metricPoints (populateInternalMetrics clock
          (exampleClient\<lparr>totalMetricsSent := 3\<rparr>)))"
  by (rule exampleKeys_enumerate, simp_all add: exampleClient_fields)+

lemma example_successful_flush:
  "snd (snd (PostMetrics F clock exampleKeys
      (Post_response 204 ''204 No Content'' (ReadAll_ok []))
      (AlertSlowConsumerError 7 exampleClient)))
   = exampleClient\<lparr>totalMetricsSent := 3\<rparr>"
proof -
  let ?a = "AlertSlowConsumerError 7 exampleClient"
  have s: "set exampleKeys = dom (metricPoints (populateInternalMetrics clock ?a))"
    using example_after_alert [of clock] by simp
  have "card (set exampleKeys) = 3"
    by (simp add: exampleKeys_def)
  then have c: "card (dom (metricPoints (populateInternalMetrics clock ?a))) = 3"
    by (simp only: s)
  have z: "totalMetricsSent ?a = 0"
    by (simp add: AlertSlowConsumerError_def exampleClient_fields)
  have eq: "(populateInternalMetrics clock ?a)\<lparr>totalMetricsSent := 3, metricPoints := Map.empty\<rparr>
      = exampleClient\<lparr>totalMetricsSent := 3\<rparr>"
    by (subst populateInternalMetrics_other_fields)
      (simp add: AlertSlowConsumerError_def addInternalMetric_def exampleClient_def New_def)
  show ?thesis
    by (simp add: PostMetrics_client writeSucceeds_def c z eq)
qed

lemma example_rendered_zero:
  "metricPoints (populateInternalMetrics (\<lambda>_. 9) (exampleClient\<lparr>totalMessagesReceived := 1\<rparr>))
      (internalKey exampleClient ''slowConsumerAlert'') = Some (internalValue exampleClient t' 0)
   \<Longrightarrow> t' = 9"
  "metricPoints (populateInternalMetrics (\<lambda>_. 9) (exampleClient\<lparr>totalMetricsSent := 3\<rparr>))
      (internalKey exampleClient ''slowConsumerAlert'') = Some (internalValue exampleClient t' 0)
   \<Longrightarrow> t' = 9"
  by (simp_all add: populate_metricPoints exampleClient_fields Let_def internalKey_def
      internalValue_def)

theorem slowConsumerAlert_one_shot_witness:
  "run exampleFormatFloat (AlertSlowConsumerError 7 exampleClient) (map Consume [])
     = Some (AlertSlowConsumerError 7 exampleClient)
   \<and> distinct exampleKeys
   \<and> set exampleKeys = dom (metricPoints (populateInternalMetrics (\<lambda>_. 9)
         (AlertSlowConsumerError 7 exampleClient)))
   \<and> carries (reqBody (fst (PostMetrics exampleFormatFloat (\<lambda>_. 9) exampleKeys
         (Post_error ''connection refused'') (AlertSlowConsumerError 7 exampleClient))))
       (''nozzle.slowConsumerAlert,ip=10.0.0.1,deployment=cf,potato=face value=1 7000000000''
          @ [CHR 0x0A])
   \<and> metricPoints exampleClient (internalKey exampleClient ''slowConsumerAlert'') = None
   \<and> \<not> list_ex isAlert [Consume exampleLogMessage]
   \<and> run exampleFormatFloat exampleClient [Consume exampleLogMessage]
       = Some (exampleClient\<lparr>totalMessagesReceived := 1\<rparr>)
   \<and> set exampleKeys = dom (metricPoints (populateInternalMetrics (\<lambda>_. 9)
         (exampleClient\<lparr>totalMessagesReceived := 1\<rparr>)))
   \<and> carries (reqBody (fst (PostMetrics exampleFormatFloat (\<lambda>_. 9) exampleKeys
         (Post_error ''connection refused'') (exampleClient\<lparr>totalMessagesReceived := 1\<rparr>))))
       (''nozzle.slowConsumerAlert,ip=10.0.0.1,deployment=cf,potato=face value=0 9000000000''
          @ [CHR 0x0A])
   \<and> writeSucceeds (Post_response 204 ''204 No Content'' (ReadAll_ok []))
   \<and> \<not> list_ex isAlert []
   \<and> run exampleFormatFloat (AlertSlowConsumerError 7 exampleClient)
         [Flush (\<lambda>_. 8) exampleKeys (Post_response 204 ''204 No Content'' (ReadAll_ok []))]
       = Some (exampleClient\<lparr>totalMetricsSent := 3\<rparr>)
   \<and> set exampleKeys = dom (metricPoints (populateInternalMetrics (\<lambda>_. 9)
         (exampleClient\<lparr>totalMetricsSent := 3\<rparr>)))
   \<and> carries (reqBody (fst (PostMetrics exampleFormatFloat (\<lambda>_. 9) exampleKeys
         (Post_error ''connection refused'') (exampleClient\<lparr>totalMetricsSent := 3\<rparr>))))
       (''nozzle.slowConsumerAlert,ip=10.0.0.1,deployment=cf,potato=face value=0 9000000000''
          @ [CHR 0x0A])"
proof -
  let ?F = exampleFormatFloat
  let ?a = "AlertSlowConsumerError 7 exampleClient"
  let ?ok = "Post_response 204 ''204 No Content'' (ReadAll_ok [])"
  let ?err = "Post_error ''connection refused''"
  let ?c2 = "exampleClient\<lparr>totalMessagesReceived := 1\<rparr>"
  let ?c3 = "exampleClient\<lparr>totalMetricsSent := 3\<rparr>"
  let ?k = "internalKey exampleClient ''slowConsumerAlert''"
  have r1: "run ?F ?a (map Consume []) = Some ?a" by simp
  note d1 = example_after_alert [of "\<lambda>_. 9"]
  have e2: "metricPoints exampleClient ?k = None"
    by (simp add: exampleClient_fields)
  have n2: "\<not> list_ex isAlert [Consume exampleLogMessage]" by simp
  have r2: "run ?F exampleClient [Consume exampleLogMessage] = Some ?c2"
    by (simp add: AddMetric_ignored isMetric_examples exampleClient_fields)
  note d2 = example_counters(1) [of "\<lambda>_. 9"]
  have w3: "writeSucceeds ?ok" by (simp add: writeSucceeds_def)
  have n3: "\<not> list_ex isAlert []" by simp
  have r3: "run ?F ?a [Flush (\<lambda>_. 8) exampleKeys ?ok] = Some ?c3"
    by (simp add: example_successful_flush)
  note d3 = example_counters(2) [of "\<lambda>_. 9"]
  note t1 = slowConsumerAlert_one_shot [where F = ?F and t = 7 and c = exampleClient
      and es = "[]" and c' = ?a and clock = "\<lambda>_. 9" and ks = exampleKeys and result = ?err]
  note t2 = slowConsumerAlert_one_shot [where F = ?F and c = exampleClient
      and c' = ?c2 and clock = "\<lambda>_. 9" and ks = exampleKeys and result = ?err
      and calls = "[Consume exampleLogMessage]"]
  note t3 = slowConsumerAlert_one_shot [where F = ?F and t = 7 and c = exampleClient
      and c' = ?c3 and clock = "\<lambda>_. 9" and ks = exampleKeys and result = ?err
      and calls = "[]" and first_result = ?ok and first_clock = "\<lambda>_. 8"
      and first_ks = exampleKeys]
  have c1: "carries (reqBody (fst (PostMetrics ?F (\<lambda>_. 9) exampleKeys ?err ?a)))
      (internalLine ?F exampleClient ''slowConsumerAlert'' 7 1)"
    using t1 r1 d1 by blast
  from t2 e2 n2 r2 obtain t' where
    a2: "metricPoints (populateInternalMetrics (\<lambda>_. 9) ?c2) ?k
      = Some (internalValue exampleClient t' 0)"
    and b2: "distinct exampleKeys
      \<and> set exampleKeys = dom (metricPoints (populateInternalMetrics (\<lambda>_. 9) ?c2)) \<longrightarrow>
      carries (reqBody (fst (PostMetrics ?F (\<lambda>_. 9) exampleKeys ?err ?c2)))
        (internalLine ?F exampleClient ''slowConsumerAlert'' t' 0)"
    by blast
  from a2 have "t' = 9" by (rule example_rendered_zero(1))
  with b2 d2 have c2: "carries (reqBody (fst (PostMetrics ?F (\<lambda>_. 9) exampleKeys ?err ?c2)))
      (internalLine ?F exampleClient ''slowConsumerAlert'' 9 0)"
    by blast
  from t3 w3 n3 r3 obtain t'' where
    a3: "metricPoints (populateInternalMetrics (\<lambda>_. 9) ?c3) ?k
      = Some (internalValue exampleClient t'' 0)"
    and b3: "distinct exampleKeys
      \<and> set exampleKeys = dom (metricPoints (populateInternalMetrics (\<lambda>_. 9) ?c3)) \<longrightarrow>
      carries (reqBody (fst (PostMetrics ?F (\<lambda>_. 9) exampleKeys ?err ?c3)))
        (internalLine ?F exampleClient ''slowConsumerAlert'' t'' 0)"
    by blast
  from a3 have "t'' = 9" by (rule example_rendered_zero(2))
  with b3 d3 have c3: "carries (reqBody (fst (PostMetrics ?F (\<lambda>_. 9) exampleKeys ?err ?c3)))
      (internalLine ?F exampleClient ''slowConsumerAlert'' 9 0)"
    by blast
  show ?thesis
    using c1 c2 c3 r1 d1 e2 n2 r2 d2 w3 n3 r3 d3
    unfolding internalLine_example by blast
qed

lemma onlyInternal_cong:
  assumes "onlyInternal c" and "metricPoints c' = metricPoints c"
    and "client_tagsHash c' = client_tagsHash c" and "ip c' = ip c"
    and "deployment c' = deployment c"
  shows "onlyInternal c'"
proof -
  have "internalKey c' = internalKey c"
    by (rule internalKey_cong) (rule assms(3))
  moreover have "internalValue c' = internalValue c"
    by (rule internalValue_cong) (rule assms(4), rule assms(5))
  ultimately show ?thesis using assms(1,2) by (simp add: onlyInternal_def)
qed

lemma onlyInternal_empty: "metricPoints c = Map.empty \<Longrightarrow> onlyInternal c"
  by (simp add: onlyInternal_def)

lemma onlyInternal_addInternalMetric:
  assumes "onlyInternal c" and "n \<in> set internalNames"
  shows "onlyInternal (addInternalMetric now c n x)"
  unfolding onlyInternal_def
proof (intro allI impI)
  fix k v
  assume a: "metricPoints (addInternalMetric now c n x) k = Some v"
  show "\<exists>n' \<in> set internalNames. \<exists>t x'.
      k = internalKey (addInternalMetric now c n x) n'
      \<and> v = internalValue (addInternalMetric now c n x) t x'"
  proof (cases "k = internalKey c n")
    case True
    with a have "v = internalValue c now x"
      by (simp add: addInternalMetric_metricPoints)
    with True assms(2) show ?thesis by auto
  next
    case False
    with a have "metricPoints c k = Some v"
      by (simp add: addInternalMetric_metricPoints)
    with assms(1) show ?thesis by (simp add: onlyInternal_def)
  qed
qed

lemma onlyInternal_populate: "onlyInternal c \<Longrightarrow> onlyInternal (populateInternalMetrics clock c)"
  by (simp add: populateInternalMetrics_def Let_def onlyInternal_addInternalMetric
      internalNames_def)

lemma step_onlyInternal:
  assumes "step F c x = Some c'" and "\<not> isConsume x" and "onlyInternal c"
  shows "onlyInternal c'"
proof (cases x)
  case (Consume e)
  with assms(2) show ?thesis by simp
next
  case (Alert t)
  with assms(1,3) show ?thesis
    by (auto simp: AlertSlowConsumerError_def internalNames_def
        intro: onlyInternal_addInternalMetric)
next
  case (Flush clock ks result)
  with assms(1) have c': "c' = snd (snd (PostMetrics F clock ks result c))" by simp
  show ?thesis
  proof (cases "writeSucceeds result")
    case True
    then show ?thesis unfolding c' PostMetrics_client
      by (simp add: onlyInternal_empty)
  next
    case False
    then show ?thesis unfolding c' PostMetrics_client
      by (simp add: onlyInternal_populate assms(3))
  qed
qed

lemma run_onlyInternal:
  "run F c calls = Some c' \<Longrightarrow> \<not> list_ex isConsume calls \<Longrightarrow> onlyInternal c \<Longrightarrow>
   onlyInternal c'"
proof (induction calls arbitrary: c)
  case Nil
  then show ?case by simp
next
  case (Cons x xs)
  from Cons.prems(1) obtain c1 where s: "step F c x = Some c1" and r: "run F c1 xs = Some c'"
    by (auto split: option.splits)
  from Cons.prems(2) have nx: "\<not> isConsume x" and nxs: "\<not> list_ex isConsume xs" by simp_all
  from Cons.IH [OF r nxs step_onlyInternal [OF s nx Cons.prems(3)]] show ?case .
qed

lemma populate_has_internal:
  assumes "onlyInternal c" and "n \<in> set internalNames"
  shows "\<exists>t x. metricPoints (populateInternalMetrics clock c) (internalKey c n)
           = Some (internalValue c t x)"
proof -
  have o: "onlyInternal (populateInternalMetrics clock c)"
    by (rule onlyInternal_populate) (rule assms(1))
  have "metricPoints (populateInternalMetrics clock c) (internalKey c n) \<noteq> None"
    using assms(2) by (auto simp: populate_metricPoints Let_def internalNames_def)
  then obtain v where v: "metricPoints (populateInternalMetrics clock c) (internalKey c n) = Some v"
    by auto
  with o obtain n' t x where "internalKey c n = internalKey (populateInternalMetrics clock c) n'"
      "v = internalValue (populateInternalMetrics clock c) t x"
    unfolding onlyInternal_def by blast
  then have "v = internalValue c t x"
    by (simp add: internalValue_def)
  with v show ?thesis by blast
qed

lemma populate_dom_internal:
  assumes "onlyInternal c"
  shows "dom (metricPoints (populateInternalMetrics clock c)) = internalKey c ` set internalNames"
proof
  have o: "onlyInternal (populateInternalMetrics clock c)"
    by (rule onlyInternal_populate) (rule assms)
  show "dom (metricPoints (populateInternalMetrics clock c)) \<subseteq> internalKey c ` set internalNames"
  proof
    fix k
    assume "k \<in> dom (metricPoints (populateInternalMetrics clock c))"
    then obtain v where "metricPoints (populateInternalMetrics clock c) k = Some v" by auto
    with o obtain n where "n \<in> set internalNames"
        "k = internalKey (populateInternalMetrics clock c) n"
      unfolding onlyInternal_def by blast
    then show "k \<in> internalKey c ` set internalNames"
      by (simp add: internalKey_def)
  qed
  show "internalKey c ` set internalNames \<subseteq> dom (metricPoints (populateInternalMetrics clock c))"
    using populate_has_internal [OF assms, of _ clock] by auto
qed

lemma card_internal_keys: "card (internalKey c ` set internalNames) = 3"
  by (simp add: internalNames_def)

lemma internalLine_cong:
  "prefix c' = prefix c \<Longrightarrow> ip c' = ip c \<Longrightarrow> deployment c' = deployment c \<Longrightarrow>
   internalLine F c' = internalLine F c"
  by (simp add: internalLine_def fun_eq_iff)

lemma internalLine_not_Nil: "internalLine F c n t x \<noteq> []"
  by (simp add: internalLine_def)

lemma idle_payload:
  assumes o: "onlyInternal c"
    and ks: "distinct ks \<and> set ks = dom (metricPoints (populateInternalMetrics clock c))"
  shows "\<exists>lines. reqBody (fst (PostMetrics F clock ks result c)) = concat lines
    \<and> length lines = 3
    \<and> (\<forall>l \<in> set lines. \<exists>n \<in> set internalNames. \<exists>t x. l = internalLine F c n t x)
    \<and> (\<forall>n \<in> set internalNames. \<exists>t x. internalLine F c n t x \<in> set lines)"
proof -
  let ?c3 = "populateInternalMetrics clock c"
  let ?g = "\<lambda>(i, key). case metricPoints ?c3 key of
              None \<Rightarrow> [] | Some mVal \<Rightarrow> formatSeries F (clock (3 + i)) ?c3 key mVal"
  let ?lines = "map ?g (enumerate 0 ks)"
  have d: "dom (metricPoints ?c3) = internalKey c ` set internalNames"
    by (rule populate_dom_internal) (rule o)
  have body: "reqBody (fst (PostMetrics F clock ks result c)) = concat ?lines"
    by (simp add: PostMetrics_request formatMetrics_body)
  from ks have dk: "distinct ks" and sk: "set ks = dom (metricPoints ?c3)" by simp_all
  have "card (set ks) = length ks" using dk by (rule distinct_card)
  then have "length ks = 3" unfolding sk d card_internal_keys by simp
  then have len: "length ?lines = 3" by simp
  have line: "\<exists>t x. ?g (i, ks ! i) = internalLine F c n t x"
    if "ks ! i = internalKey c n" and "n \<in> set internalNames" for i n
  proof -
    from populate_has_internal [OF o that(2), of clock]
    obtain t x where "metricPoints ?c3 (internalKey c n) = Some (internalValue c t x)"
      by blast
    then have "?g (i, ks ! i) = internalLine F c n t x"
      using that(1) by (simp add: formatSeries_internal)
    then show ?thesis by blast
  qed
  have a: "\<forall>l \<in> set ?lines. \<exists>n \<in> set internalNames. \<exists>t x. l = internalLine F c n t x"
  proof
    fix l
    assume "l \<in> set ?lines"
    then obtain i where i: "i < length ks" "l = ?g (i, ks ! i)"
      by (auto simp: in_set_conv_nth nth_enumerate_eq)
    then have "ks ! i \<in> internalKey c ` set internalNames"
      using ks d nth_mem by blast
    then obtain n where n: "n \<in> set internalNames" "ks ! i = internalKey c n" by auto
    from line [OF n(2) n(1)] i(2) n(1)
    show "\<exists>n \<in> set internalNames. \<exists>t x. l = internalLine F c n t x" by auto
  qed
  have b: "\<forall>n \<in> set internalNames. \<exists>t x. internalLine F c n t x \<in> set ?lines"
  proof
    fix n
    assume n: "n \<in> set internalNames"
    then have "internalKey c n \<in> set ks" using ks d by auto
    then obtain i where i: "i < length ks" "ks ! i = internalKey c n"
      by (auto simp: in_set_conv_nth)
    from line [OF i(2) n] obtain t x where "?g (i, ks ! i) = internalLine F c n t x"
      by blast
    moreover have "(i, ks ! i) \<in> set (enumerate 0 ks)"
      using i(1) by (simp add: in_set_enumerate_eq)
    then have "?g (i, ks ! i) \<in> set ?lines"
      unfolding set_map by (rule imageI)
    ultimately show "\<exists>t x. internalLine F c n t x \<in> set ?lines" by metis
  qed
  from body len a b show ?thesis by blast
qed

subsection \<open>The idle flush\<close>

text \<open>
  C9. Start from a client with an empty batch, as after \<open>New\<close> or a successful flush, and
  make any calls other than \<open>AddMetric\<close>. The batch that the next \<open>PostMetrics\<close> renders
  has exactly the three keys of the internal series \<open>totalMessagesReceived\<close>,
  \<open>totalMetricsSent\<close> and \<open>slowConsumerAlert\<close>, each with a single point, and the count
  of series is 3. When \<open>ks\<close> lists the keys of that batch in the order of rendering, the
  payload is not empty and consists of exactly three lines, each the line of an internal
  series, and each internal series has its line.
\<close>

theorem idle_flush_renders_three_internal_series:
  "metricPoints c = Map.empty \<and> \<not> list_ex isConsume calls \<and> run F c calls = Some c' \<longrightarrow>
     dom (metricPoints (populateInternalMetrics clock c')) = internalKey c ` set internalNames
     \<and> card (dom (metricPoints (populateInternalMetrics clock c'))) = 3
     \<and> snd (formatMetrics F clock ks (populateInternalMetrics clock c')) = 3
     \<and> (\<forall>k \<in> dom (metricPoints (populateInternalMetrics clock c')).
           length (pointsAt (populateInternalMetrics clock c') k) = 1)
     \<and> (distinct ks \<and> set ks = dom (metricPoints (populateInternalMetrics clock c')) \<longrightarrow>
          reqBody (fst (PostMetrics F clock ks result c')) \<noteq> []
          \<and> (\<exists>lines. reqBody (fst (PostMetrics F clock ks result c')) = concat lines
                \<and> length lines = 3
                \<and> (\<forall>l \<in> set lines. \<exists>n \<in> set internalNames. \<exists>t x.
                      l = internalLine F c n t x)
                \<and> (\<forall>n \<in> set internalNames. \<exists>t x. internalLine F c n t x \<in> set lines)))"
proof (intro impI)
  assume h: "metricPoints c = Map.empty \<and> \<not> list_ex isConsume calls \<and> run F c calls = Some c'"
  then have r: "run F c calls = Some c'" and n: "\<not> list_ex isConsume calls"
    and e: "metricPoints c = Map.empty"
    by simp_all
  let ?c3 = "populateInternalMetrics clock c'"
  have f: "client_tagsHash c' = client_tagsHash c" "ip c' = ip c" "deployment c' = deployment c"
      "prefix c' = prefix c"
    using run_fields [OF r] by simp_all
  have k: "internalKey c' = internalKey c"
    by (rule internalKey_cong) (rule f(1))
  have l: "internalLine F c' = internalLine F c"
    by (rule internalLine_cong) (rule f(4), rule f(2), rule f(3))
  have o: "onlyInternal c'"
    by (rule run_onlyInternal [OF r n]) (rule onlyInternal_empty [OF e])
  have d: "dom (metricPoints ?c3) = internalKey c ` set internalNames"
    using populate_dom_internal [OF o, of clock] by (simp only: k)
  have c3: "card (dom (metricPoints ?c3)) = 3"
    by (simp only: d card_internal_keys)
  have s: "snd (formatMetrics F clock ks ?c3) = 3"
    by (simp add: formatMetrics_def c3)
  have p: "\<forall>k \<in> dom (metricPoints ?c3). length (pointsAt ?c3 k) = 1"
  proof
    fix key
    assume "key \<in> dom (metricPoints ?c3)"
    then obtain n where nn: "n \<in> set internalNames" "key = internalKey c' n"
      using d k by auto
    from populate_has_internal [OF o nn(1), of clock] nn(2)
    show "length (pointsAt ?c3 key) = 1"
      by (auto simp: pointsAt_def internalValue_def)
  qed
  have b: "reqBody (fst (PostMetrics F clock ks result c')) \<noteq> []
      \<and> (\<exists>lines. reqBody (fst (PostMetrics F clock ks result c')) = concat lines
            \<and> length lines = 3
            \<and> (\<forall>l \<in> set lines. \<exists>n \<in> set internalNames. \<exists>t x. l = internalLine F c n t x)
            \<and> (\<forall>n \<in> set internalNames. \<exists>t x. internalLine F c n t x \<in> set lines))"
    if ks: "distinct ks \<and> set ks = dom (metricPoints ?c3)"
  proof -
    from idle_payload [OF o ks, of F result]
    obtain lines where ls: "reqBody (fst (PostMetrics F clock ks result c')) = concat lines"
        "length lines = 3"
        "\<forall>l \<in> set lines. \<exists>n \<in> set internalNames. \<exists>t x. l = internalLine F c n t x"
        "\<forall>n \<in> set internalNames. \<exists>t x. internalLine F c n t x \<in> set lines"
      unfolding l by blast
    from ls(2) obtain l0 where "l0 \<in> set lines" by (cases lines) auto
    moreover from this ls(3) have "l0 \<noteq> []" using internalLine_not_Nil by metis
    ultimately have "concat lines \<noteq> []" by auto
    with ls show ?thesis by auto
  qed
  from d c3 s p b show "dom (metricPoints ?c3) = internalKey c ` set internalNames
     \<and> card (dom (metricPoints ?c3)) = 3
     \<and> snd (formatMetrics F clock ks ?c3) = 3
     \<and> (\<forall>k \<in> dom (metricPoints ?c3). length (pointsAt ?c3 k) = 1)
     \<and> (distinct ks \<and> set ks = dom (metricPoints ?c3) \<longrightarrow>
          reqBody (fst (PostMetrics F clock ks result c')) \<noteq> []
          \<and> (\<exists>lines. reqBody (fst (PostMetrics F clock ks result c')) = concat lines
                \<and> length lines = 3
                \<and> (\<forall>l \<in> set lines. \<exists>n \<in> set internalNames. \<exists>t x.
                      l = internalLine F c n t x)
                \<and> (\<forall>n \<in> set internalNames. \<exists>t x. internalLine F c n t x \<in> set lines)))"
    by blast
qed

lemma example_idle_body:
  "reqBody (fst (PostMetrics exampleFormatFloat (\<lambda>_. 9) exampleKeys result
      (AlertSlowConsumerError 7 exampleClient)))
   = ''nozzle.slowConsumerAlert,ip=10.0.0.1,deployment=cf,potato=face value=1 7000000000''
       @ [CHR 0x0A]
     @ ''nozzle.totalMessagesReceived,ip=10.0.0.1,deployment=cf,potato=face value=0 9000000000''
       @ [CHR 0x0A]
     @ ''nozzle.totalMetricsSent,ip=10.0.0.1,deployment=cf,potato=face value=0 9000000000''
       @ [CHR 0x0A]"
proof -
  let ?a = "AlertSlowConsumerError 7 exampleClient"
  let ?c3 = "populateInternalMetrics (\<lambda>_. 9) ?a"
  have f: "prefix ?c3 = prefix exampleClient" "internalKey ?a = internalKey exampleClient"
      "internalValue ?a = internalValue exampleClient"
      "totalMessagesReceived ?a = 0" "totalMetricsSent ?a = 0"
    by (simp_all add: AlertSlowConsumerError_def exampleClient_fields fun_eq_iff)
  have m: "metricPoints ?c3 (internalKey exampleClient ''slowConsumerAlert'')
        = Some (internalValue exampleClient 7 1)"
      "metricPoints ?c3 (internalKey exampleClient ''totalMessagesReceived'')
        = Some (internalValue exampleClient 9 0)"
      "metricPoints ?c3 (internalKey exampleClient ''totalMetricsSent'')
        = Some (internalValue exampleClient 9 0)"
    by (simp_all add: populate_metricPoints f Let_def)
      (simp_all add: AlertSlowConsumerError_def addInternalMetric_metricPoints)
  have l: "internalLine exampleFormatFloat exampleClient n 9 0 =
      ''nozzle.'' @ n @ '',ip=10.0.0.1,deployment=cf,potato=face value=0 9000000000''
        @ [CHR 0x0A]" for n
    by (simp add: internalLine_def exampleClient_fields exampleFormatFloat_def
        float64_of_uint64_0 FormatInt_def nat_digits.simps)
  show ?thesis
    by (simp add: PostMetrics_request formatMetrics_body exampleKeys_def m
        formatSeries_internal [OF f(1)] internalLine_example(1) l)
qed

theorem idle_flush_renders_three_internal_series_witness:
  "metricPoints exampleClient = Map.empty
   \<and> \<not> list_ex isConsume [Alert 7]
   \<and> run exampleFormatFloat exampleClient [Alert 7]
       = Some (AlertSlowConsumerError 7 exampleClient)
   \<and> distinct exampleKeys
   \<and> set exampleKeys = dom (metricPoints (populateInternalMetrics (\<lambda>_. 9)
         (AlertSlowConsumerError 7 exampleClient)))
   \<and> card (dom (metricPoints (populateInternalMetrics (\<lambda>_. 9)
         (AlertSlowConsumerError 7 exampleClient)))) = 3
   \<and> snd (formatMetrics exampleFormatFloat (\<lambda>_. 9) exampleKeys
         (populateInternalMetrics (\<lambda>_. 9) (AlertSlowConsumerError 7 exampleClient))) = 3
   \<and> reqBody (fst (PostMetrics exampleFormatFloat (\<lambda>_. 9) exampleKeys
         (Post_error ''connection refused'') (AlertSlowConsumerError 7 exampleClient))) \<noteq> []
   \<and> reqBody (fst (PostMetrics exampleFormatFloat (\<lambda>_. 9) exampleKeys
         (Post_error ''connection refused'') (AlertSlowConsumerError 7 exampleClient)))
       = ''nozzle.slowConsumerAlert,ip=10.0.0.1,deployment=cf,potato=face value=1 7000000000''
           @ [CHR 0x0A]
         @ ''nozzle.totalMessagesReceived,ip=10.0.0.1,deployment=cf,potato=face value=0 9000000000''
           @ [CHR 0x0A]
         @ ''nozzle.totalMetricsSent,ip=10.0.0.1,deployment=cf,potato=face value=0 9000000000''
           @ [CHR 0x0A]"
proof -
  let ?a = "AlertSlowConsumerError 7 exampleClient"
  let ?err = "Post_error ''connection refused''"
  have e: "metricPoints exampleClient = Map.empty" by (rule exampleClient_fields(1))
  have n: "\<not> list_ex isConsume [Alert 7]" by simp
  have r: "run exampleFormatFloat exampleClient [Alert 7] = Some ?a" by simp
  note d = example_after_alert [of "\<lambda>_. 9"]
  note t = idle_flush_renders_three_internal_series [where F = exampleFormatFloat
      and c = exampleClient and calls = "[Alert 7]" and c' = ?a and clock = "\<lambda>_. 9"
      and ks = exampleKeys and result = ?err]
  from t e n r d
  have "card (dom (metricPoints (populateInternalMetrics (\<lambda>_. 9) ?a))) = 3"
    and "snd (formatMetrics exampleFormatFloat (\<lambda>_. 9) exampleKeys
         (populateInternalMetrics (\<lambda>_. 9) ?a)) = 3"
    and "reqBody (fst (PostMetrics exampleFormatFloat (\<lambda>_. 9) exampleKeys ?err ?a)) \<noteq> []"
    by blast+
  with e n r d example_idle_body [of ?err] show ?thesis by blast
qed

lemma run_Consume_counters:
  "run F c (map Consume es) = Some c' \<Longrightarrow>
   totalMessagesReceived c' = totalMessagesReceived c + of_nat (length es)
   \<and> totalMetricsSent c' = totalMetricsSent c"
proof (induction es arbitrary: c)
  case Nil
  then show ?case by simp
next
  case (Cons e es)
  from Cons.prems obtain c1 where s: "AddMetric c e = Some c1"
    and r: "run F c1 (map Consume es) = Some c'"
    by (auto split: option.splits)
  have "totalMessagesReceived c1 = totalMessagesReceived c + 1
      \<and> totalMetricsSent c1 = totalMetricsSent c"
    using s by (cases "isMetric e") (auto simp: AddMetric_metric AddMetric_ignored)
  with Cons.IH [OF r] show ?case by simp
qed

lemma pointsAt_cong: "metricPoints c' k = metricPoints c k \<Longrightarrow> pointsAt c' k = pointsAt c k"
  by (simp add: pointsAt_def)

subsection \<open>After a failed flush\<close>

text \<open>
  C5, as amended. Let a flush fail, let envelopes \<open>es\<close> be consumed, and look at the batch
  that the next flush renders. For every key of an envelope-derived series it holds the
  points that were pending before the failed flush, followed by the points of the
  envelopes consumed since. The \<open>slowConsumerAlert\<close> series is the one the failed flush
  rendered. The \<open>totalMessagesReceived\<close> and \<open>totalMetricsSent\<close> series are written anew:
  each holds one point with the counter's present value, and the points the failed flush
  had queued for them are gone. When \<open>ks'\<close> lists the keys of that batch in the order of
  rendering, the payload carries the line of every series of the batch.
\<close>

theorem failed_flush_carries_forward:
  "\<not> writeSucceeds result
   \<and> run F (snd (snd (PostMetrics F clock ks result c))) (map Consume es) = Some c' \<longrightarrow>
     (\<forall>k. eventType k \<noteq> 0 \<longrightarrow>
        pointsAt (populateInternalMetrics clock' c') k
          = pointsAt c k @ map seriesPoint (filter (\<lambda>e. isMetric e \<and> seriesKey e = k) es))
     \<and> metricPoints (populateInternalMetrics clock' c') (internalKey c ''slowConsumerAlert'')
         = metricPoints (populateInternalMetrics clock c) (internalKey c ''slowConsumerAlert'')
     \<and> metricPoints (populateInternalMetrics clock c) (internalKey c ''slowConsumerAlert'')
         \<noteq> None
     \<and> metricPoints (populateInternalMetrics clock' c') (internalKey c ''totalMessagesReceived'')
         = Some (internalValue c (clock' 0) (totalMessagesReceived c + of_nat (length es)))
     \<and> metricPoints (populateInternalMetrics clock' c') (internalKey c ''totalMetricsSent'')
         = Some (internalValue c (clock' 1) (totalMetricsSent c))
     \<and> (distinct ks' \<and> set ks' = dom (metricPoints (populateInternalMetrics clock' c')) \<longrightarrow>
          (\<forall>k v. metricPoints (populateInternalMetrics clock' c') k = Some v \<longrightarrow>
             (\<exists>i. carries (reqBody (fst (PostMetrics F clock' ks' result' c')))
                    (formatSeries F (clock' (3 + i)) (populateInternalMetrics clock' c') k v))))"
proof (intro impI)
  assume h: "\<not> writeSucceeds result
    \<and> run F (snd (snd (PostMetrics F clock ks result c))) (map Consume es) = Some c'"
  let ?c1 = "populateInternalMetrics clock c"
  let ?c3 = "populateInternalMetrics clock' c'"
  let ?alert = "internalKey c ''slowConsumerAlert''"
  from h have "snd (snd (PostMetrics F clock ks result c)) = ?c1"
    by (simp add: PostMetrics_client)
  with h have r: "run F ?c1 (map Consume es) = Some c'"
    by simp
  have f: "client_tagsHash c' = client_tagsHash c" "ip c' = ip c" "deployment c' = deployment c"
    using run_fields [OF r] by simp_all
  have k: "internalKey c' = internalKey c"
    by (rule internalKey_cong) (rule f(1))
  have v: "internalValue c' = internalValue c"
    by (rule internalValue_cong) (rule f(2), rule f(3))
  have cnt: "totalMessagesReceived c' = totalMessagesReceived c + of_nat (length es)"
      "totalMetricsSent c' = totalMetricsSent c"
    using run_Consume_counters [OF r] by (simp_all add: populate_totalMetricsSent)
  have p1: "pointsAt ?c3 key = pointsAt c key
      @ map seriesPoint (filter (\<lambda>e. isMetric e \<and> seriesKey e = key) es)"
    if "eventType key \<noteq> 0" for key
  proof -
    have "pointsAt ?c3 key = pointsAt c' key"
      by (rule pointsAt_cong) (rule populate_frame [OF that])
    also have "\<dots> = pointsAt ?c1 key
        @ map seriesPoint (filter (\<lambda>e. isMetric e \<and> seriesKey e = key) es)"
      by (rule run_Consume_points [OF r])
    also have "pointsAt ?c1 key = pointsAt c key"
      by (rule pointsAt_cong) (rule populate_frame [OF that])
    finally show ?thesis .
  qed
  have a1: "metricPoints ?c1 ?alert \<noteq> None"
    by (simp add: populate_alert split: option.splits)
  have "metricPoints c' ?alert = metricPoints ?c1 ?alert"
    by (rule run_Consume_frame [OF r]) simp
  with a1 have a3: "metricPoints ?c3 ?alert = metricPoints ?c1 ?alert"
    using populate_alert [of clock' c'] by (auto simp: k)
  have m: "metricPoints ?c3 (internalKey c ''totalMessagesReceived'')
        = Some (internalValue c (clock' 0) (totalMessagesReceived c + of_nat (length es)))"
      "metricPoints ?c3 (internalKey c ''totalMetricsSent'')
        = Some (internalValue c (clock' 1) (totalMetricsSent c))"
    by (simp_all add: populate_metricPoints k v cnt Let_def)
  have b: "\<exists>i. carries (reqBody (fst (PostMetrics F clock' ks' result' c')))
        (formatSeries F (clock' (3 + i)) ?c3 key mVal)"
    if "distinct ks' \<and> set ks' = dom (metricPoints ?c3)" and "metricPoints ?c3 key = Some mVal"
    for key mVal
  proof -
    from that have "key \<in> set ks'" by auto
    from body_carries_series [OF this that(2), of F clock']
    show ?thesis by (auto simp: PostMetrics_request)
  qed
  from p1 a3 a1 m b show "(\<forall>k. eventType k \<noteq> 0 \<longrightarrow>
        pointsAt ?c3 k
          = pointsAt c k @ map seriesPoint (filter (\<lambda>e. isMetric e \<and> seriesKey e = k) es))
     \<and> metricPoints ?c3 ?alert = metricPoints ?c1 ?alert
     \<and> metricPoints ?c1 ?alert \<noteq> None
     \<and> metricPoints ?c3 (internalKey c ''totalMessagesReceived'')
         = Some (internalValue c (clock' 0) (totalMessagesReceived c + of_nat (length es)))
     \<and> metricPoints ?c3 (internalKey c ''totalMetricsSent'')
         = Some (internalValue c (clock' 1) (totalMetricsSent c))
     \<and> (distinct ks' \<and> set ks' = dom (metricPoints ?c3) \<longrightarrow>
          (\<forall>k v. metricPoints ?c3 k = Some v \<longrightarrow>
             (\<exists>i. carries (reqBody (fst (PostMetrics F clock' ks' result' c')))
                    (formatSeries F (clock' (3 + i)) ?c3 k v))))"
    by blast
qed

lemma seriesKey_not_internal:
  "isMetric e \<Longrightarrow> seriesKey e \<noteq> internalKey c n"
  "isMetric e \<Longrightarrow> internalKey c n \<noteq> seriesKey e"
  using metric_eventType_nonzero [of e] by (auto simp: seriesKey_def internalKey_def)

lemma example_failed_flush:
  "snd (snd (PostMetrics F (\<lambda>_. 8) ks (Post_error err) exampleClient))
     = populateInternalMetrics (\<lambda>_. 8) exampleClient"
  by (simp add: PostMetrics_client writeSucceeds_def)

lemma example_first_batch:
  "metricPoints (populateInternalMetrics (\<lambda>_. 8) exampleClient) k =
     (if k \<in> set exampleKeys then Some (internalValue exampleClient 8 0) else None)"
  by (auto simp: populate_metricPoints exampleClient_fields exampleKeys_def Let_def)

lemma example_then_consume:
  "run F (populateInternalMetrics (\<lambda>_. 8) exampleClient) [Consume exampleValueMetric]
     = Some exampleRetained"
proof -
  have "seriesKey exampleValueMetric \<notin> set exampleKeys"
    using seriesKey_not_internal(1) [OF isMetric_examples(1)] by (auto simp: exampleKeys_def)
  then have p: "pointsAt (populateInternalMetrics (\<lambda>_. 8) exampleClient)
      (seriesKey exampleValueMetric) = []"
    by (simp add: pointsAt_def example_first_batch)
  have t: "(word_of_int (sint (1000000000 :: 64 word) sdiv 1000000000) :: 64 word) = 1"
    by (simp add: signed_divide_int_def)
  have s: "seriesPoint exampleValueMetric = \<lparr>Timestamp = 1, Value = Float64 0x4014000000000000\<rparr>"
    by (simp add: seriesPoint_def exampleValueMetric_def ValueMetric_GetValue_def t)
  show ?thesis
    by (simp add: AddMetric_metric isMetric_examples p s parseTags_exampleValueMetric
        exampleClient_fields exampleRetained_def)
qed

lemma exampleRetained_fields:
  "client_tagsHash exampleRetained = []" "prefix exampleRetained = ''nozzle.''"
  "ip exampleRetained = ''10.0.0.1''" "deployment exampleRetained = ''cf''"
  "totalMessagesReceived exampleRetained = 1" "totalMetricsSent exampleRetained = 0"
  by (simp_all add: exampleRetained_def exampleClient_fields populate_totalMetricsSent)

lemma exampleRetained_batch:
  "metricPoints exampleRetained k =
     (if k = seriesKey exampleValueMetric
      then Some \<lparr>tags = [''deployment=cf'', ''index=1'', ''job=doppler'', ''protocol=http'',
                       ''request_id=a1f5''],
                points = [\<lparr>Timestamp = 1, Value = Float64 0x4014000000000000\<rparr>]\<rparr>
      else if k \<in> set exampleKeys then Some (internalValue exampleClient 8 0) else None)"
  by (simp add: exampleRetained_def example_first_batch)

lemma exampleRetained_keys:
  "internalKey exampleRetained = internalKey exampleClient"
  "internalValue exampleRetained = internalValue exampleClient"
  by (simp_all add: internalKey_def internalValue_def fun_eq_iff exampleRetained_fields
      exampleClient_fields)

lemma example_second_batch:
  "metricPoints (populateInternalMetrics (\<lambda>_. 9) exampleRetained)
       (internalKey exampleClient ''slowConsumerAlert'')
     = Some (internalValue exampleClient 8 0)"
  "metricPoints (populateInternalMetrics (\<lambda>_. 9) exampleRetained)
       (internalKey exampleClient ''totalMessagesReceived'')
     = Some (internalValue exampleClient 9 1)"
  "metricPoints (populateInternalMetrics (\<lambda>_. 9) exampleRetained)
       (internalKey exampleClient ''totalMetricsSent'')
     = Some (internalValue exampleClient 9 0)"
  "metricPoints (populateInternalMetrics (\<lambda>_. 9) exampleRetained)
       (seriesKey exampleValueMetric)
     = Some \<lparr>tags = [''deployment=cf'', ''index=1'', ''job=doppler'', ''protocol=http'',
                     ''request_id=a1f5''],
              points = [\<lparr>Timestamp = 1, Value = Float64 0x4014000000000000\<rparr>]\<rparr>"
  by (simp_all add: populate_metricPoints exampleRetained_keys exampleRetained_fields
      exampleRetained_batch exampleKeys_def Let_def
      seriesKey_not_internal [OF isMetric_examples(1)])

lemma example_second_keys:
  "distinct (exampleKeys @ [seriesKey exampleValueMetric])
   \<and> set (exampleKeys @ [seriesKey exampleValueMetric])
       = dom (metricPoints (populateInternalMetrics (\<lambda>_. 9) exampleRetained))"
proof -
  have n: "seriesKey exampleValueMetric \<notin> set exampleKeys"
    using seriesKey_not_internal(1) [OF isMetric_examples(1)] by (auto simp: exampleKeys_def)
  have "dom (metricPoints exampleRetained) = insert (seriesKey exampleValueMetric) (set exampleKeys)"
    by (auto simp: exampleRetained_batch split: if_splits)
  then have "dom (metricPoints (populateInternalMetrics (\<lambda>_. 9) exampleRetained))
      = insert (seriesKey exampleValueMetric) (set exampleKeys)"
    unfolding populate_metricPoints exampleRetained_keys
    by (auto simp: exampleKeys_def Let_def)
  with n show ?thesis by (auto simp: exampleKeys_def)
qed

lemma example_second_body:
  "reqBody (fst (PostMetrics exampleFormatFloat (\<lambda>_. 9)
      (exampleKeys @ [seriesKey exampleValueMetric]) result exampleRetained))
   = ''nozzle.slowConsumerAlert,ip=10.0.0.1,deployment=cf,potato=face value=0 8000000000''
       @ [CHR 0x0A]
     @ ''nozzle.totalMessagesReceived,ip=10.0.0.1,deployment=cf,potato=face value=1 9000000000''
       @ [CHR 0x0A]
     @ ''nozzle.totalMetricsSent,ip=10.0.0.1,deployment=cf,potato=face value=0 9000000000''
       @ [CHR 0x0A]
     @ ''nozzle.origin.metricName,deployment=cf,index=1,job=doppler,protocol=http,''
     @ ''request_id=a1f5,potato=face value=5 1000000000'' @ [CHR 0x0A]"
proof -
  let ?c3 = "populateInternalMetrics (\<lambda>_. 9) exampleRetained"
  have f: "prefix ?c3 = prefix exampleClient"
    by (simp add: exampleRetained_fields exampleClient_fields)
  have l: "internalLine exampleFormatFloat exampleClient n 8 0 =
      ''nozzle.'' @ n @ '',ip=10.0.0.1,deployment=cf,potato=face value=0 8000000000''
        @ [CHR 0x0A]"
    "internalLine exampleFormatFloat exampleClient n 9 1 =
      ''nozzle.'' @ n @ '',ip=10.0.0.1,deployment=cf,potato=face value=1 9000000000''
        @ [CHR 0x0A]"
    "internalLine exampleFormatFloat exampleClient n 9 0 =
      ''nozzle.'' @ n @ '',ip=10.0.0.1,deployment=cf,potato=face value=0 9000000000''
        @ [CHR 0x0A]" for n
    by (simp_all add: internalLine_def exampleClient_fields exampleFormatFloat_def
        float64_of_uint64_0 float64_of_uint64_1 FormatInt_def nat_digits.simps)
  have n: "name (seriesKey exampleValueMetric) = ''origin.metricName''"
    by (simp add: seriesKey_def getName_def exampleValueMetric_def ValueMetric_GetName_def)
  have m: "formatSeries exampleFormatFloat now ?c3 (seriesKey exampleValueMetric)
      \<lparr>tags = [''deployment=cf'', ''index=1'', ''job=doppler'', ''protocol=http'',
                ''request_id=a1f5''],
       points = [\<lparr>Timestamp = 1, Value = Float64 0x4014000000000000\<rparr>]\<rparr>
    = ''nozzle.origin.metricName,deployment=cf,index=1,job=doppler,protocol=http,''
     @ ''request_id=a1f5,potato=face value=5 1000000000'' @ [CHR 0x0A]" for now
    by (simp add: formatSeries_def n exampleRetained_fields formatTags_Cons formatValues_Cons
        formatTimestamp_Cons exampleFormatFloat_def FormatInt_def nat_digits.simps)
  show ?thesis
    by (simp add: PostMetrics_request formatMetrics_body exampleKeys_def example_second_batch
        formatSeries_internal [OF f] l m)
qed

theorem failed_flush_carries_forward_counterexample:
  "\<not> writeSucceeds (Post_error ''connection refused'')
   \<and> pointsAt (snd (snd (PostMetrics exampleFormatFloat (\<lambda>_. 8) exampleKeys
          (Post_error ''connection refused'') exampleClient)))
        (internalKey exampleClient ''totalMessagesReceived'')
       = [\<lparr>Timestamp = 8, Value = Float64 0\<rparr>]
   \<and> run exampleFormatFloat
         (snd (snd (PostMetrics exampleFormatFloat (\<lambda>_. 8) exampleKeys
            (Post_error ''connection refused'') exampleClient)))
         [Consume exampleValueMetric]
       = Some exampleRetained
   \<and> pointsAt (populateInternalMetrics (\<lambda>_. 9) exampleRetained)
        (internalKey exampleClient ''totalMessagesReceived'')
       = [\<lparr>Timestamp = 9, Value = Float64 0x3FF0000000000000\<rparr>]
   \<and> distinct (exampleKeys @ [seriesKey exampleValueMetric])
   \<and> set (exampleKeys @ [seriesKey exampleValueMetric])
       = dom (metricPoints (populateInternalMetrics (\<lambda>_. 9) exampleRetained))
   \<and> reqBody (fst (PostMetrics exampleFormatFloat (\<lambda>_. 9)
        (exampleKeys @ [seriesKey exampleValueMetric]) (Post_error ''connection refused'')
        exampleRetained))
       = ''nozzle.slowConsumerAlert,ip=10.0.0.1,deployment=cf,potato=face value=0 8000000000''
           @ [CHR 0x0A]
         @ ''nozzle.totalMessagesReceived,ip=10.0.0.1,deployment=cf,potato=face value=1 9000000000''
           @ [CHR 0x0A]
         @ ''nozzle.totalMetricsSent,ip=10.0.0.1,deployment=cf,potato=face value=0 9000000000''
           @ [CHR 0x0A]
         @ ''nozzle.origin.metricName,deployment=cf,index=1,job=doppler,protocol=http,''
         @ ''request_id=a1f5,potato=face value=5 1000000000'' @ [CHR 0x0A]"
proof -
  have a: "pointsAt (populateInternalMetrics (\<lambda>_. 8) exampleClient)
        (internalKey exampleClient ''totalMessagesReceived'')
       = [\<lparr>Timestamp = 8, Value = Float64 0\<rparr>]"
    by (simp add: pointsAt_def example_first_batch exampleKeys_def internalValue_def
        float64_of_uint64_0)
  have b: "pointsAt (populateInternalMetrics (\<lambda>_. 9) exampleRetained)
        (internalKey exampleClient ''totalMessagesReceived'')
       = [\<lparr>Timestamp = 9, Value = Float64 0x3FF0000000000000\<rparr>]"
    by (simp add: pointsAt_def example_second_batch internalValue_def float64_of_uint64_1)
  have w: "\<not> writeSucceeds (Post_error ''connection refused'')"
    by (simp add: writeSucceeds_def)
  note f = example_failed_flush [of exampleFormatFloat exampleKeys "''connection refused''"]
  note r = example_then_consume [of exampleFormatFloat]
  note k1 = example_second_keys [THEN conjunct1] and k2 = example_second_keys [THEN conjunct2]
  note body = example_second_body [of "Post_error ''connection refused''"]
  show ?thesis
    unfolding f using w a r b k1 k2 body by (intro conjI) assumption+
qed

theorem failed_flush_carries_forward_witness:
  "\<not> writeSucceeds (Post_error ''connection refused'')
   \<and> run exampleFormatFloat
         (snd (snd (PostMetrics exampleFormatFloat (\<lambda>_. 8) exampleKeys
            (Post_error ''connection refused'') exampleClient)))
         (map Consume [exampleValueMetric])
       = Some exampleRetained
   \<and> eventType (seriesKey exampleValueMetric) \<noteq> 0
   \<and> pointsAt (populateInternalMetrics (\<lambda>_. 9) exampleRetained) (seriesKey exampleValueMetric)
       = pointsAt exampleClient (seriesKey exampleValueMetric) @ [seriesPoint exampleValueMetric]
   \<and> metricPoints (populateInternalMetrics (\<lambda>_. 9) exampleRetained)
         (internalKey exampleClient ''slowConsumerAlert'')
       = Some (internalValue exampleClient 8 0)
   \<and> metricPoints (populateInternalMetrics (\<lambda>_. 9) exampleRetained)
         (internalKey exampleClient ''totalMessagesReceived'')
       = Some (internalValue exampleClient 9 1)
   \<and> distinct (exampleKeys @ [seriesKey exampleValueMetric])
   \<and> set (exampleKeys @ [seriesKey exampleValueMetric])
       = dom (metricPoints (populateInternalMetrics (\<lambda>_. 9) exampleRetained))
   \<and> (\<exists>i. carries (reqBody (fst (PostMetrics exampleFormatFloat (\<lambda>_. 9)
              (exampleKeys @ [seriesKey exampleValueMetric]) (Post_error ''connection refused'')
              exampleRetained)))
          (formatSeries exampleFormatFloat 9 (populateInternalMetrics (\<lambda>_. 9) exampleRetained)
             (internalKey exampleClient ''slowConsumerAlert'')
             (internalValue exampleClient 8 0)))"
proof -
  let ?err = "Post_error ''connection refused''"
  let ?ks' = "exampleKeys @ [seriesKey exampleValueMetric]"
  let ?c3 = "populateInternalMetrics (\<lambda>_. 9) exampleRetained"
  have w: "\<not> writeSucceeds ?err" by (simp add: writeSucceeds_def)
  have r: "run exampleFormatFloat
      (snd (snd (PostMetrics exampleFormatFloat (\<lambda>_. 8) exampleKeys ?err exampleClient)))
      (map Consume [exampleValueMetric]) = Some exampleRetained"
    using example_then_consume [of exampleFormatFloat] by (simp add: example_failed_flush)
  have e: "eventType (seriesKey exampleValueMetric) \<noteq> 0"
    using metric_eventType_nonzero [OF isMetric_examples(1)] by (simp add: seriesKey_def)
  note t = failed_flush_carries_forward [where F = exampleFormatFloat and clock = "\<lambda>_. 8"
      and ks = exampleKeys and result = ?err and c = exampleClient
      and es = "[exampleValueMetric]" and c' = exampleRetained and clock' = "\<lambda>_. 9"
      and ks' = ?ks' and result' = ?err]
  from t w r have
    p: "\<forall>k. eventType k \<noteq> 0 \<longrightarrow> pointsAt ?c3 k = pointsAt exampleClient k
        @ map seriesPoint (filter (\<lambda>e. isMetric e \<and> seriesKey e = k) [exampleValueMetric])"
    and a: "metricPoints ?c3 (internalKey exampleClient ''slowConsumerAlert'')
        = metricPoints (populateInternalMetrics (\<lambda>_. 8) exampleClient)
            (internalKey exampleClient ''slowConsumerAlert'')"
    and m: "metricPoints ?c3 (internalKey exampleClient ''totalMessagesReceived'')
        = Some (internalValue exampleClient 9
            (totalMessagesReceived exampleClient + of_nat (length [exampleValueMetric])))"
    and b: "distinct ?ks' \<and> set ?ks' = dom (metricPoints ?c3) \<longrightarrow>
        (\<forall>k v. metricPoints ?c3 k = Some v \<longrightarrow>
           (\<exists>i. carries (reqBody (fst (PostMetrics exampleFormatFloat (\<lambda>_. 9) ?ks' ?err
                    exampleRetained)))
                  (formatSeries exampleFormatFloat 9 ?c3 k v)))"
    by blast+
  from p e have p': "pointsAt ?c3 (seriesKey exampleValueMetric)
      = pointsAt exampleClient (seriesKey exampleValueMetric) @ [seriesPoint exampleValueMetric]"
    by (simp add: isMetric_examples)
  from a have a': "metricPoints ?c3 (internalKey exampleClient ''slowConsumerAlert'')
      = Some (internalValue exampleClient 8 0)"
    by (simp add: example_first_batch exampleKeys_def)
  from m have m': "metricPoints ?c3 (internalKey exampleClient ''totalMessagesReceived'')
      = Some (internalValue exampleClient 9 1)"
    by (simp add: exampleClient_fields)
  from b example_second_keys a'
  have c: "\<exists>i. carries (reqBody (fst (PostMetrics exampleFormatFloat (\<lambda>_. 9) ?ks' ?err
        exampleRetained)))
      (formatSeries exampleFormatFloat 9 ?c3 (internalKey exampleClient ''slowConsumerAlert'')
         (internalValue exampleClient 8 0))"
    by blast
  note k1 = example_second_keys [THEN conjunct1] and k2 = example_second_keys [THEN conjunct2]
  from w r e p' a' m' k1 k2 c show ?thesis by (intro conjI) assumption+
qed

end
